theory Spec2Isabelle
  imports Main
begin

section \<open>JavaScript values and strings\<close>

text \<open>
  The values that cross the boundaries of \<^verbatim>\<open>connection.js\<close> (frames, login responses,
  request options) are JSON-like JavaScript values. Numbers are restricted to the integers
  that JavaScript holds exactly and prints in plain decimal (below 2 to the power 53 in absolute
  value). A string is the sequence of the bytes of its UTF-8 encoding. An object is an
  association list of its own enumerable properties in insertion order (keys are meant to
  be distinct; a lookup takes the first binding).
\<close>

datatype jsval =
    JUndefined
  | JNull
  | JBool bool
  | JNum int
  | JStr string
  | JArr "jsval list"
  | JObj "(string \<times> jsval) list"

text \<open>Thrown values: \<^verbatim>\<open>new Error(msg)\<close> and the engine's own errors.\<close>

datatype exn = Error string | TypeError string | SyntaxError string

subsection \<open>Decimal printing\<close>

definition digit_char :: "nat \<Rightarrow> char" where
  "digit_char d = ''0123456789'' ! (d mod 10)"

function string_of_nat :: "nat \<Rightarrow> string" where
  "string_of_nat n =
     (if n < 10 then [digit_char n] else string_of_nat (n div 10) @ [digit_char (n mod 10)])"
  by pat_completeness auto
termination
  by (relation "measure id") auto

declare string_of_nat.simps [simp del]

definition string_of_int :: "int \<Rightarrow> string" where
  "string_of_int i = (if i < 0 then CHR ''-'' # string_of_nat (nat (- i)) else string_of_nat (nat i))"

subsection \<open>String operations used by the source\<close>

text \<open>\<^verbatim>\<open>s.startsWith(p)\<close>, \<^verbatim>\<open>s.includes(p)\<close>, \<^verbatim>\<open>s.replace(p, r)\<close> with a string
  pattern (first occurrence only), and \<^verbatim>\<open>s.charAt(0)\<close>, which is the empty string
  on the empty string.\<close>

fun starts_with :: "string \<Rightarrow> string \<Rightarrow> bool" where
  "starts_with s [] = True"
| "starts_with [] (p # ps) = False"
| "starts_with (c # cs) (p # ps) = (c = p \<and> starts_with cs ps)"

fun str_includes :: "string \<Rightarrow> string \<Rightarrow> bool" where
  "str_includes [] p = (p = [])"
| "str_includes (c # cs) p = (starts_with (c # cs) p \<or> str_includes cs p)"

fun replace_first :: "string \<Rightarrow> string \<Rightarrow> string \<Rightarrow> string" where
  "replace_first [] p r = (if p = [] then r else [])"
| "replace_first (c # cs) p r =
     (if starts_with (c # cs) p then r @ drop (length p) (c # cs)
      else c # replace_first cs p r)"

definition charAt0 :: "string \<Rightarrow> string" where
  "charAt0 s = take 1 s"

fun intercalate :: "string \<Rightarrow> string list \<Rightarrow> string" where
  "intercalate sep [] = []"
| "intercalate sep [x] = x"
| "intercalate sep (x # y # ys) = x @ sep @ intercalate sep (y # ys)"

text \<open>\<^verbatim>\<open>s.trim() !== ''\<close>: the string is not made of white space only. White space is
  what \<^verbatim>\<open>trim\<close> strips, the white space and line terminators of the language: the ASCII
  ones, and in UTF-8 the no-break space U+00A0, U+1680, U+2000 to U+200A, the separators
  U+2028 and U+2029, U+202F, U+205F, U+3000 and the byte order mark U+FEFF.\<close>

definition is_space :: "char \<Rightarrow> bool" where
  "is_space ch = (ch \<in> set [CHR 0x20, CHR 0x09, CHR 0x0A, CHR 0x0B, CHR 0x0C, CHR 0x0D])"

definition is_space3 :: "char \<Rightarrow> char \<Rightarrow> char \<Rightarrow> bool" where
  "is_space3 a b c =
     ((a = CHR 0xE1 \<and> b = CHR 0x9A \<and> c = CHR 0x80)
      \<or> (a = CHR 0xE2 \<and> b = CHR 0x80
          \<and> ((128 :: nat) \<le> of_char c \<and> (of_char c :: nat) \<le> 138
              \<or> c = CHR 0xA8 \<or> c = CHR 0xA9 \<or> c = CHR 0xAF))
      \<or> (a = CHR 0xE2 \<and> b = CHR 0x81 \<and> c = CHR 0x9F)
      \<or> (a = CHR 0xE3 \<and> b = CHR 0x80 \<and> c = CHR 0x80)
      \<or> (a = CHR 0xEF \<and> b = CHR 0xBB \<and> c = CHR 0xBF))"

fun all_space :: "string \<Rightarrow> bool" where
  "all_space [] = True"
| "all_space (a # s) =
     (if is_space a then all_space s
      else if a = CHR 0xC2 then (case s of b # r \<Rightarrow> b = CHR 0xA0 \<and> all_space r | [] \<Rightarrow> False)
      else (case s of b # c # r \<Rightarrow> is_space3 a b c \<and> all_space r | _ \<Rightarrow> False))"

definition trim_nonempty :: "string \<Rightarrow> bool" where
  "trim_nonempty s = (\<not> all_space s)"

subsection \<open>Type tests, truthiness and property access\<close>

fun typeof :: "jsval \<Rightarrow> string" where
  "typeof JUndefined = ''undefined''"
| "typeof JNull = ''object''"
| "typeof (JBool b) = ''boolean''"
| "typeof (JNum n) = ''number''"
| "typeof (JStr s) = ''string''"
| "typeof (JArr xs) = ''object''"
| "typeof (JObj kvs) = ''object''"

fun truthy :: "jsval \<Rightarrow> bool" where
  "truthy JUndefined = False"
| "truthy JNull = False"
| "truthy (JBool b) = b"
| "truthy (JNum n) = (n \<noteq> 0)"
| "truthy (JStr s) = (s \<noteq> [])"
| "truthy (JArr xs) = True"
| "truthy (JObj kvs) = True"

text \<open>The own enumerable properties of a value: an array has its indices.\<close>

fun own_props :: "jsval \<Rightarrow> (string \<times> jsval) list" where
  "own_props (JObj kvs) = kvs"
| "own_props (JArr xs) = zip (map string_of_nat [0 ..< length xs]) xs"
| "own_props v = []"

text \<open>\<^verbatim>\<open>v.k\<close> for the property names the source reads (\<^verbatim>\<open>self\<close>, \<^verbatim>\<open>type\<close>,
  \<^verbatim>\<open>token\<close>, \<^verbatim>\<open>headers\<close>): none of them is inherited from a prototype, so a missing
  own property reads \<^verbatim>\<open>undefined\<close>.\<close>

definition get_field :: "jsval \<Rightarrow> string \<Rightarrow> jsval" where
  "get_field v k = (case map_of (own_props v) k of Some x \<Rightarrow> x | None \<Rightarrow> JUndefined)"

fun put_prop :: "string \<Rightarrow> jsval \<Rightarrow> (string \<times> jsval) list \<Rightarrow> (string \<times> jsval) list" where
  "put_prop k v [] = [(k, v)]"
| "put_prop k v ((k', v') # kvs) =
     (if k = k' then (k, v) # kvs else (k', v') # put_prop k v kvs)"

text \<open>\<^verbatim>\<open>data.k = v\<close> on an object or array. A named property on an array is neither an
  element nor serialised, so the array is left as it is.\<close>

fun set_field :: "string \<Rightarrow> jsval \<Rightarrow> jsval \<Rightarrow> jsval" where
  "set_field k v (JObj kvs) = JObj (put_prop k v kvs)"
| "set_field k v d = d"

text \<open>\<^verbatim>\<open>v.hasOwnProperty(k)\<close> is a method call on \<open>v\<close>: when \<open>v\<close> itself carries a
  property named \<^verbatim>\<open>hasOwnProperty\<close> (never a function in a JSON value) the call throws.\<close>

fun is_array :: "jsval \<Rightarrow> bool" where
  "is_array (JArr xs) = True"
| "is_array v = False"

definition hasOwnProperty :: "jsval \<Rightarrow> string \<Rightarrow> exn + bool" where
  "hasOwnProperty v k =
     (if ''hasOwnProperty'' \<in> fst ` set (own_props v)
      then Inl (TypeError ''hasOwnProperty is not a function'')
      else Inr (k \<in> fst ` set (own_props v) \<or> (is_array v \<and> k = ''length'')))"

subsection \<open>Serialisation\<close>

text \<open>\<^verbatim>\<open>JSON.stringify\<close>. A string is quoted, with the quote, the backslash and the
  control characters escaped. In an array \<^verbatim>\<open>undefined\<close> is written \<^verbatim>\<open>null\<close>; in an
  object a property whose value is \<^verbatim>\<open>undefined\<close> is left out. The result is
  \<^verbatim>\<open>undefined\<close> (here \<open>None\<close>) for \<^verbatim>\<open>undefined\<close> itself. A tree of \<open>jsval\<close> has
  no cycle and no function, so the serialiser never throws on it.\<close>

definition hex_char :: "nat \<Rightarrow> char" where
  "hex_char d = ''0123456789abcdef'' ! (d mod 16)"

definition escape_char :: "char \<Rightarrow> string" where
  "escape_char ch =
     (if ch = CHR 0x22 then [CHR 0x5C, CHR 0x22]
      else if ch = CHR 0x5C then [CHR 0x5C, CHR 0x5C]
      else if ch = CHR 0x08 then [CHR 0x5C, CHR ''b'']
      else if ch = CHR 0x0C then [CHR 0x5C, CHR ''f'']
      else if ch = CHR 0x0A then [CHR 0x5C, CHR ''n'']
      else if ch = CHR 0x0D then [CHR 0x5C, CHR ''r'']
      else if ch = CHR 0x09 then [CHR 0x5C, CHR ''t'']
      else if (of_char ch :: nat) < 32
        then [CHR 0x5C, CHR ''u'', CHR ''0'', CHR ''0'',
              hex_char (of_char ch div 16), hex_char (of_char ch mod 16)]
      else [ch])"

definition quote :: "string \<Rightarrow> string" where
  "quote s = CHR 0x22 # concat (map escape_char s) @ [CHR 0x22]"

fun JSON_stringify :: "jsval \<Rightarrow> string option"
  and stringify_elems :: "jsval list \<Rightarrow> string list"
  and stringify_members :: "(string \<times> jsval) list \<Rightarrow> string list" where
  "JSON_stringify JUndefined = None"
| "JSON_stringify JNull = Some ''null''"
| "JSON_stringify (JBool b) = Some (if b then ''true'' else ''false'')"
| "JSON_stringify (JNum n) = Some (string_of_int n)"
| "JSON_stringify (JStr s) = Some (quote s)"
| "JSON_stringify (JArr xs) = Some (''['' @ intercalate '','' (stringify_elems xs) @ '']'')"
| "JSON_stringify (JObj kvs) = Some (''{'' @ intercalate '','' (stringify_members kvs) @ ''}'')"
| "stringify_elems [] = []"
| "stringify_elems (x # xs) =
     (case JSON_stringify x of None \<Rightarrow> ''null'' | Some s \<Rightarrow> s) # stringify_elems xs"
| "stringify_members [] = []"
| "stringify_members ((k, v) # kvs) =
     (case JSON_stringify v of
        None \<Rightarrow> stringify_members kvs
      | Some s \<Rightarrow> (quote k @ '':'' @ s) # stringify_members kvs)"

text \<open>The value \<^verbatim>\<open>JSON.stringify(v)\<close> evaluates to.\<close>

definition stringify_val :: "jsval \<Rightarrow> jsval" where
  "stringify_val v = (case JSON_stringify v of None \<Rightarrow> JUndefined | Some s \<Rightarrow> JStr s)"

text \<open>String conversion, as \<^verbatim>\<open>String(v)\<close> and a template literal do it. An object
  prints as \<^verbatim>\<open>[object Object]\<close> through the inherited \<^verbatim>\<open>toString\<close>; an object that
  carries a property named \<^verbatim>\<open>toString\<close> of its own (not callable in a JSON value) makes
  the conversion throw a TypeError, here \<open>None\<close>. An array joins its elements with
  commas, \<^verbatim>\<open>null\<close> and \<^verbatim>\<open>undefined\<close> elements printing as nothing.\<close>

fun to_string :: "jsval \<Rightarrow> string option"
  and to_string_elems :: "jsval list \<Rightarrow> string list option" where
  "to_string JUndefined = Some ''undefined''"
| "to_string JNull = Some ''null''"
| "to_string (JBool b) = Some (if b then ''true'' else ''false'')"
| "to_string (JNum n) = Some (string_of_int n)"
| "to_string (JStr s) = Some s"
| "to_string (JArr xs) = map_option (intercalate '','') (to_string_elems xs)"
| "to_string (JObj kvs) =
     (if ''toString'' \<in> fst ` set kvs then None else Some ''[object Object]'')"
| "to_string_elems [] = Some []"
| "to_string_elems (x # xs) =
     (case (if x = JNull \<or> x = JUndefined then Some [] else to_string x) of
        None \<Rightarrow> None
      | Some s \<Rightarrow> map_option ((#) s) (to_string_elems xs))"

section \<open>Connection options and the URI builder\<close>

text \<open>The options object given to the constructor. A flag that the source compares with
  \<^verbatim>\<open>=== true\<close> or \<^verbatim>\<open>=== false\<close> is \<open>None\<close> when the option is not supplied;
  \<^verbatim>\<open>maxRetries\<close> is \<open>None\<close> when it is not a number. The option \<^verbatim>\<open>reconnect\<close> is
  named \<open>opt_reconnect\<close>, the method keeps the name.\<close>

record connection_options =
  hostname :: string
  port :: int
  useTLS :: "bool option"
  version :: string
  useAuthentication :: "bool option"
  opt_reconnect :: "bool option"
  maxRetries :: "int option"
  username :: "string option"
  password :: "string option"
  bearerTokenPrefix :: "string option"

text \<open>\<^verbatim>\<open>buildURI(protocol)\<close>, lines 74 to 91.\<close>

definition buildURI :: "connection_options \<Rightarrow> string \<Rightarrow> string" where
  "buildURI opts protocol =
     (let uri = (if useTLS opts = Some True then protocol @ ''s://'' else protocol @ ''://'');
          uri = uri @ hostname opts;
          uri = uri @ (if port opts = 80 then [] else '':'' @ string_of_int (port opts));
          uri = uri @ ''/signalk/'';
          uri = uri @ version opts;
          uri = (if protocol = ''ws'' then uri @ ''/stream?subscribe=none'' else uri);
          uri = (if protocol = ''http'' then uri @ ''/api'' else uri)
      in uri)"

text \<open>The rules of the specification (section 4.1), by transport kind.\<close>

datatype transport_kind = Stream | Request

definition protocol_of :: "transport_kind \<Rightarrow> string" where
  "protocol_of k = (case k of Stream \<Rightarrow> ''ws'' | Request \<Rightarrow> ''http'')"

definition spec_scheme :: "connection_options \<Rightarrow> transport_kind \<Rightarrow> string" where
  "spec_scheme opts k =
     (case k of
        Stream \<Rightarrow> (if useTLS opts = Some True then ''wss'' else ''ws'')
      | Request \<Rightarrow> (if useTLS opts = Some True then ''https'' else ''http''))"

definition spec_port_suffix :: "connection_options \<Rightarrow> string" where
  "spec_port_suffix opts = (if port opts = 80 then [] else CHR '':'' # string_of_int (port opts))"

definition spec_path :: "connection_options \<Rightarrow> transport_kind \<Rightarrow> string" where
  "spec_path opts k =
     ''/signalk/'' @ version opts @
       (case k of Stream \<Rightarrow> ''/stream?subscribe=none'' | Request \<Rightarrow> ''/api'')"

section \<open>The connection manager\<close>

subsection \<open>State\<close>

text \<open>The fields the constructor assigns (lines 20 to 44), under their names; a field
  whose name starts with an underscore has the prefix \<open>priv_\<close> instead. \<open>socket\<close> is
  \<open>None\<close> for \<^verbatim>\<open>null\<close>. Three fields model what lies outside the object: the listener
  registry of the event emitter it extends, the number of login requests in flight, and
  the trace of the effects it has had on the outside, oldest first.\<close>

record credential =
  kind :: string
  token :: jsval

record websocket =
  ws_uri :: string
  ws_listeners :: "string list"
  ws_close_requested :: bool

datatype payload = NoArg | Arg jsval | ErrArg exn

datatype effect =
    Emit string payload
  | RemoveAllListeners
  | NewWebSocket string
  | SocketClose
  | SocketSend jsval
  | HttpFetch string "(string \<times> jsval) list"
  | ConsoleLog string
  | UnhandledRejection exn

record conn =
  options :: connection_options
  httpURI :: string
  wsURI :: string
  shouldDisconnect :: bool
  connected :: bool
  socket :: "websocket option"
  lastMessage :: int
  isConnecting :: bool
  priv_fetchReady :: bool
  priv_bearerTokenPrefix :: string
  priv_authenticated :: bool
  priv_retries :: int
  priv_connection :: jsval
  priv_self :: jsval
  priv_token :: credential
  listeners :: "(string \<times> nat) list"
  pending_login :: nat
  trace :: "effect list"

definition empty_token :: credential where
  "empty_token = \<lparr>kind = [], token = JStr []\<rparr>"

text \<open>\<^verbatim>\<open>this.emit(name, arg)\<close>: the signal goes to the listeners registered for it; the
  trace records it. The emitter is \<^verbatim>\<open>eventemitter3\<close>, for which an \<^verbatim>\<open>error\<close> signal
  without a listener is no exception. A listener is taken to return without calling back
  into the connection and without throwing.\<close>

definition emit :: "string \<Rightarrow> payload \<Rightarrow> conn \<Rightarrow> conn" where
  "emit name arg c = c\<lparr>trace := trace c @ [Emit name arg]\<rparr>"

subsection \<open>Property reads by name\<close>

text \<open>What \<^verbatim>\<open>this.name\<close> evaluates to: the instance fields of the constructor, the two
  accessors, and the methods of the class and of the event emitter (references). Any
  other name is not defined anywhere on the object and reads \<^verbatim>\<open>undefined\<close>.\<close>

datatype propval = PUndefined | PNull | PBool bool | PNum int | PStr string | PVal jsval | PRef

definition method_names :: "string list" where
  "method_names =
     [''constructor'', ''buildURI'', ''state'', ''disconnect'', ''reconnect'',
      ''setAuthenticated'', ''initiateSocket'', ''cleanupListeners'', ''_onWSMessage'',
      ''_onWSOpen'', ''_onWSError'', ''_onWSClose'', ''send'', ''fetch'',
      ''eventNames'', ''listeners'', ''listenerCount'', ''emit'', ''on'', ''once'',
      ''addListener'', ''off'', ''removeListener'', ''removeAllListeners'',
      ''_events'', ''_eventsCount'']"

definition properties :: "conn \<Rightarrow> (string \<times> propval) list" where
  "properties c =
     [(''options'', PRef),
      (''httpURI'', PStr (httpURI c)),
      (''wsURI'', PStr (wsURI c)),
      (''shouldDisconnect'', PBool (shouldDisconnect c)),
      (''connected'', PBool (connected c)),
      (''socket'', (case socket c of None \<Rightarrow> PNull | Some w \<Rightarrow> PRef)),
      (''lastMessage'', PNum (lastMessage c)),
      (''isConnecting'', PBool (isConnecting c)),
      (''_fetchReady'', PBool (priv_fetchReady c)),
      (''_bearerTokenPrefix'', PStr (priv_bearerTokenPrefix c)),
      (''_authenticated'', PBool (priv_authenticated c)),
      (''_retries'', PNum (priv_retries c)),
      (''_connection'', PVal (priv_connection c)),
      (''_self'', PVal (priv_self c)),
      (''onWSMessage'', PRef), (''onWSOpen'', PRef), (''onWSClose'', PRef), (''onWSError'', PRef),
      (''_token'', PRef),
      (''self'', PVal (priv_self c)),
      (''connectionInfo'', PVal (priv_connection c))]
     @ map (\<lambda>m. (m, PRef)) method_names"

definition get_prop :: "conn \<Rightarrow> string \<Rightarrow> propval" where
  "get_prop c name = (case map_of (properties c) name of Some v \<Rightarrow> v | None \<Rightarrow> PUndefined)"

subsection \<open>Accessors, lines 49 to 72\<close>

definition set_self :: "jsval \<Rightarrow> conn \<Rightarrow> conn" where
  "set_self data c =
     (let c1 = (if data \<noteq> JNull then emit ''self'' (Arg data) c else c)
      in c1\<lparr>priv_self := data\<rparr>)"

text \<open>\<^verbatim>\<open>data.self\<close> throws on \<^verbatim>\<open>null\<close> and \<^verbatim>\<open>undefined\<close>, after the assignment to
  \<^verbatim>\<open>_connection\<close>: the result is the exception, if any, and the state reached.\<close>

definition set_connectionInfo :: "jsval \<Rightarrow> conn \<Rightarrow> exn option \<times> conn" where
  "set_connectionInfo data c =
     (let c1 = (if data \<noteq> JNull then emit ''connectionInfo'' (Arg data) c else c);
          c2 = c1\<lparr>priv_connection := data\<rparr>
      in if data = JNull \<or> data = JUndefined
         then (Some (TypeError ''Cannot read properties of null or undefined''), c2)
         else (None, set_self (get_field data ''self'') c2))"

subsection \<open>\<^verbatim>\<open>state()\<close>, lines 93 to 99\<close>

record state_view =
  connecting :: propval
  st_connected :: propval
  ready :: propval

definition state :: "conn \<Rightarrow> state_view" where
  "state c =
     \<lparr>connecting = get_prop c ''isConnecting'',
      st_connected = get_prop c ''connected'',
      ready = get_prop c ''fetchReady''\<rparr>"

subsection \<open>Socket set-up and listener clean-up, lines 184 to 210\<close>

definition setAuthenticated :: "jsval \<Rightarrow> string option \<Rightarrow> conn \<Rightarrow> conn" where
  "setAuthenticated tok kind_arg c =
     (emit ''fetchReady'' NoArg c)
       \<lparr>priv_authenticated := True,
        priv_token := \<lparr>kind = (case kind_arg of None \<Rightarrow> ''JWT'' | Some k \<Rightarrow> k), token = tok\<rparr>\<rparr>"

definition initiateSocket :: "conn \<Rightarrow> conn" where
  "initiateSocket c =
     c\<lparr>socket := Some \<lparr>ws_uri = wsURI c,
                       ws_listeners = [''message'', ''open'', ''error'', ''close''],
                       ws_close_requested = False\<rparr>,
       trace := trace c @ [NewWebSocket (wsURI c)]\<rparr>"

definition cleanupListeners :: "conn \<Rightarrow> conn" where
  "cleanupListeners c =
     c\<lparr>priv_authenticated := False,
       priv_token := empty_token,
       listeners := [],
       trace := trace c @ [RemoveAllListeners]\<rparr>"

text \<open>\<^verbatim>\<open>this.socket.close()\<close> on a socket that exists: the close is requested, and the
  close event comes later.\<close>

definition socket_close :: "conn \<Rightarrow> conn" where
  "socket_close c =
     c\<lparr>socket := map_option (\<lambda>w. w\<lparr>ws_close_requested := True\<rparr>) (socket c),
       trace := trace c @ [SocketClose]\<rparr>"

subsection \<open>\<^verbatim>\<open>fetch(path, opts)\<close>, lines 294 to 356\<close>

type_synonym request = "string \<times> (string \<times> jsval) list"

definition rewrite_uri :: "string \<Rightarrow> string" where
  "rewrite_uri uri0 =
     (let uri = (if str_includes uri0 ''/api/auth/login''
                 then replace_first uri0 ''/api/auth/login'' ''/auth/login'' else uri0);
          uri = (if str_includes uri ''/api/access/requests''
                 then replace_first uri ''/api/access/requests'' ''/access/requests'' else uri);
          uri = (if str_includes uri ''/signalk/v1/api/security''
                 then replace_first uri ''/signalk/v1/api/security'' ''/security'' else uri)
      in uri)"

definition default_headers :: jsval where
  "default_headers =
     JObj [(''Accept'', JStr ''application/json''), (''Content-Type'', JStr ''application/json'')]"

text \<open>The address and the options handed to the request transport, or the exception
  thrown before the call (the token of the credential may not convert to a string). The
  options are given by their properties.\<close>

definition fetch_request :: "conn \<Rightarrow> string \<Rightarrow> jsval \<Rightarrow> exn + request" where
  "fetch_request c path0 opts0 =
     (let path = (if charAt0 path0 \<noteq> ''/'' then ''/'' @ path0 else path0);
          opts = (if \<not> truthy opts0 \<or> typeof opts0 \<noteq> ''object''
                  then [(''method'', JStr ''GET'')] else own_props opts0);
          h = (case map_of opts ''headers'' of Some v \<Rightarrow> v | None \<Rightarrow> JUndefined);
          opts = (if \<not> truthy h \<or> typeof h \<noteq> ''object''
                  then put_prop ''headers'' default_headers opts else opts);
          h = (case map_of opts ''headers'' of Some v \<Rightarrow> v | None \<Rightarrow> JUndefined);
          uri = rewrite_uri (httpURI c @ path)
      in if priv_authenticated c \<and> \<not> str_includes path ''auth/login''
         then (case to_string (token (priv_token c)) of
                 None \<Rightarrow> Inl (TypeError ''Cannot convert object to primitive value'')
               | Some t \<Rightarrow>
                   Inr (uri,
                        put_prop ''mode'' (JStr ''cors'')
                          (put_prop ''credentials'' (JStr ''same-origin'')
                            (put_prop ''headers''
                               (JObj (put_prop ''Authorization''
                                        (JStr (kind (priv_token c) @ '' '' @ t)) (own_props h)))
                               opts))))
         else Inr (uri, opts))"

definition fetch :: "string \<Rightarrow> jsval \<Rightarrow> conn \<Rightarrow> (exn + request) \<times> conn" where
  "fetch path opts c =
     (case fetch_request c path opts of
        Inl e \<Rightarrow> (Inl e, c)
      | Inr rq \<Rightarrow> (Inr rq, c\<lparr>trace := trace c @ [HttpFetch (fst rq) (snd rq)]\<rparr>))"

text \<open>The response handler of \<^verbatim>\<open>fetch\<close> (lines 343 to 355): what the promise it returns
  settles to. \<^verbatim>\<open>JSON.parse\<close> belongs to the runtime and is a parameter, \<open>None\<close> when
  it throws.\<close>

record http_response =
  ok :: bool
  status :: int
  statusText :: string
  content_type :: "string option"
  body :: string

definition fetch_then :: "(string \<Rightarrow> jsval option) \<Rightarrow> string \<Rightarrow> http_response \<Rightarrow> exn + jsval" where
  "fetch_then parse uri response =
     (if \<not> ok response
      then Inl (Error (''Error fetching '' @ uri @ '': '' @ string_of_int (status response)
                        @ '' '' @ statusText response))
      else (case content_type response of
              None \<Rightarrow> Inl (TypeError ''Cannot read properties of null'')
            | Some type \<Rightarrow>
                if str_includes type ''application/json''
                then (case parse (body response) of
                        None \<Rightarrow> Inl (SyntaxError ''Unexpected token in JSON'')
                      | Some v \<Rightarrow> Inr v)
                else Inr (JStr (body response))))"

subsection \<open>\<^verbatim>\<open>reconnect(initial)\<close> and \<^verbatim>\<open>disconnect()\<close>, lines 101 to 182\<close>

definition authRequest :: "connection_options \<Rightarrow> jsval" where
  "authRequest opts =
     JObj [(''method'', JStr ''POST''),
           (''mode'', JStr ''cors''),
           (''credentials'', JStr ''same-origin''),
           (''body'', stringify_val (JObj
              [(''username'', JStr (case username opts of None \<Rightarrow> [] | Some u \<Rightarrow> u)),
               (''password'', JStr (case password opts of None \<Rightarrow> [] | Some pw \<Rightarrow> pw))]))]"

text \<open>The synchronous part of \<^verbatim>\<open>reconnect\<close>: with authentication it ends when the login
  request has been issued, and the login is then in flight. The call of \<^verbatim>\<open>fetch\<close> with
  the login path cannot throw (lemma \<open>fetch_login_Inr\<close> below); the branch for an
  exception keeps the state of that moment.\<close>

definition reconnect :: "bool \<Rightarrow> conn \<Rightarrow> conn" where
  "reconnect initial c =
     (if isConnecting c then c
      else if socket c \<noteq> None then socket_close c
      else if \<not> initial \<and> Some (priv_retries c) = maxRetries (options c)
        then cleanupListeners (emit ''hitMaxRetries'' NoArg c)
      else if \<not> initial \<and> opt_reconnect (options c) = Some False
        then cleanupListeners c
      else if \<not> initial \<and> shouldDisconnect c
        then cleanupListeners c
      else
        (let c1 = c\<lparr>priv_fetchReady := False, shouldDisconnect := False, isConnecting := True\<rparr>
         in if useAuthentication (options c1) = Some False
            then initiateSocket (emit ''fetchReady'' NoArg (c1\<lparr>priv_fetchReady := True\<rparr>))
            else (case fetch ''/auth/login'' (authRequest (options c1)) c1 of
                    (Inr rq, c2) \<Rightarrow> c2\<lparr>pending_login := Suc (pending_login c2)\<rparr>
                  | (Inl e, c2) \<Rightarrow> c2)))"

definition disconnect :: "conn \<Rightarrow> conn" where
  "disconnect c = reconnect False (c\<lparr>shouldDisconnect := True\<rparr>)"

text \<open>The two callbacks on the login promise (lines 160 to 181). \<open>login_then\<close> is
  \<open>Inl\<close> when the callback throws, which it does before it changes anything.\<close>

definition stringify_text :: "jsval \<Rightarrow> string" where
  "stringify_text v = (case JSON_stringify v of None \<Rightarrow> ''undefined'' | Some s \<Rightarrow> s)"

definition unexpected_response :: "jsval \<Rightarrow> exn" where
  "unexpected_response result =
     Error (''Unexpected response from auth endpoint: '' @ stringify_text result)"

definition login_then :: "jsval \<Rightarrow> conn \<Rightarrow> exn + conn" where
  "login_then result c =
     (if \<not> truthy result \<or> typeof result \<noteq> ''object'' then Inl (unexpected_response result)
      else (case hasOwnProperty result ''token'' of
              Inl e \<Rightarrow> Inl e
            | Inr has \<Rightarrow>
                if \<not> has then Inl (unexpected_response result)
                else
                  Inr (initiateSocket (emit ''fetchReady'' NoArg
                    (c\<lparr>priv_authenticated := True,
                       priv_token :=
                         \<lparr>kind = (case get_field result ''type'' of
                                    JStr t \<Rightarrow> if trim_nonempty t then t
                                              else priv_bearerTokenPrefix c
                                  | _ \<Rightarrow> priv_bearerTokenPrefix c),
                          token = get_field result ''token''\<rparr>,
                       priv_fetchReady := True\<rparr>)))))"

definition login_catch :: "exn \<Rightarrow> conn \<Rightarrow> conn" where
  "login_catch err c =
     (let c1 = emit ''error'' (ErrArg err) c
      in c1\<lparr>trace := trace c1 @ [UnhandledRejection err]\<rparr>)"

text \<open>The login promise settles: rejected (\<open>Inl\<close>) or resolved with the decoded body.\<close>

definition login_settled :: "exn + jsval \<Rightarrow> conn \<Rightarrow> conn" where
  "login_settled outcome c =
     (let c0 = c\<lparr>pending_login := pending_login c - 1\<rparr>
      in case outcome of
           Inl e \<Rightarrow> login_catch e c0
         | Inr result \<Rightarrow>
             (case login_then result c0 of
                Inl e \<Rightarrow> login_catch e c0
              | Inr c' \<Rightarrow> c'))"

subsection \<open>The constructor, lines 18 to 47\<close>

definition new_connection :: "connection_options \<Rightarrow> conn" where
  "new_connection opts =
     \<lparr>options = opts,
      httpURI = buildURI opts ''http'',
      wsURI = buildURI opts ''ws'',
      shouldDisconnect = False,
      connected = False,
      socket = None,
      lastMessage = - 1,
      isConnecting = False,
      priv_fetchReady = False,
      priv_bearerTokenPrefix =
        (case bearerTokenPrefix opts of
           None \<Rightarrow> ''Bearer''
         | Some s \<Rightarrow> if s = [] then ''Bearer'' else s),
      priv_authenticated = False,
      priv_retries = 0,
      priv_connection = JNull,
      priv_self = JStr [],
      priv_token = empty_token,
      listeners = [],
      pending_login = 0,
      trace = []\<rparr>"

definition constructor :: "connection_options \<Rightarrow> conn" where
  "constructor opts = reconnect True (new_connection opts)"

subsection \<open>Transport event handlers, lines 212 to 258\<close>

text \<open>The test of line 224, left to right: \<open>Inl\<close> when a call of \<^verbatim>\<open>hasOwnProperty\<close>
  throws.\<close>

definition is_handshake :: "jsval \<Rightarrow> exn + bool" where
  "is_handshake data =
     (if truthy data \<and> typeof data = ''object'' then
        (case hasOwnProperty data ''name'' of
           Inl e \<Rightarrow> Inl e
         | Inr b1 \<Rightarrow>
             if \<not> b1 then Inr False
             else (case hasOwnProperty data ''version'' of
                     Inl e \<Rightarrow> Inl e
                   | Inr b2 \<Rightarrow>
                       if \<not> b2 then Inr False else hasOwnProperty data ''roles''))
      else Inr False)"

text \<open>\<^verbatim>\<open>_onWSMessage(evt)\<close>, with \<^verbatim>\<open>Date.now()\<close> and \<^verbatim>\<open>evt.data\<close> as arguments. The
  result is the exception the handler ends with, if any, and the state reached.\<close>

definition onWSMessage ::
    "(string \<Rightarrow> jsval option) \<Rightarrow> int \<Rightarrow> jsval \<Rightarrow> conn \<Rightarrow> exn option \<times> conn" where
  "onWSMessage parse now evt_data c =
     (let c1 = c\<lparr>lastMessage := now\<rparr>;
          parsed = (case evt_data of JStr s \<Rightarrow> parse s | _ \<Rightarrow> Some evt_data);
          data = (case parsed of Some v \<Rightarrow> v | None \<Rightarrow> evt_data);
          c2 = (case parsed of
                  Some v \<Rightarrow> c1
                | None \<Rightarrow> c1\<lparr>trace := trace c1 @ [ConsoleLog ''Error parsing data'']\<rparr>)
      in case is_handshake data of
           Inl e \<Rightarrow> (Some e, c2)
         | Inr hs \<Rightarrow>
             if hs then
               (case set_connectionInfo data c2 of
                  (Some e, c3) \<Rightarrow> (Some e, c3)
                | (None, c3) \<Rightarrow> (None, emit ''message'' (Arg data) c3))
             else (None, emit ''message'' (Arg data) c2))"

definition onWSOpen :: "conn \<Rightarrow> conn" where
  "onWSOpen c = emit ''connect'' NoArg (c\<lparr>connected := True, isConnecting := False\<rparr>)"

text \<open>\<^verbatim>\<open>_onWSError(err)\<close> reads \<^verbatim>\<open>err.message\<close> first, which throws when \<open>err\<close> is
  \<^verbatim>\<open>null\<close> or \<^verbatim>\<open>undefined\<close>.\<close>

definition onWSError :: "jsval \<Rightarrow> conn \<Rightarrow> exn + conn" where
  "onWSError err c =
     (if err = JNull \<or> err = JUndefined
      then Inl (TypeError ''Cannot read properties of null or undefined'')
      else Inr (reconnect False
                  (emit ''error'' (Arg err) (c\<lparr>priv_retries := priv_retries c + 1\<rparr>))))"

text \<open>\<^verbatim>\<open>_onWSClose(evt)\<close> detaches the four handlers from \<^verbatim>\<open>this.socket\<close> first, which
  throws when there is no socket.\<close>

definition onWSClose :: "jsval \<Rightarrow> conn \<Rightarrow> exn + conn" where
  "onWSClose evt c =
     (case socket c of
        None \<Rightarrow> Inl (TypeError ''Cannot read properties of null'')
      | Some w \<Rightarrow>
          Inr (reconnect False
                 (emit ''disconnect'' (Arg evt)
                    (c\<lparr>socket := None,
                       connected := False,
                       isConnecting := False,
                       priv_retries := priv_retries c + 1\<rparr>))))"

subsection \<open>\<^verbatim>\<open>send(data)\<close>, lines 260 to 292\<close>

text \<open>The call returns a rejected promise, throws, or returns \<^verbatim>\<open>undefined\<close> after it
  has handed the frame to the socket.\<close>

datatype send_result = Rejected exn | Threw exn | Returned

definition send :: "(string \<Rightarrow> jsval option) \<Rightarrow> jsval \<Rightarrow> conn \<Rightarrow> send_result \<times> conn" where
  "send parse data0 c =
     (if \<not> connected c \<or> socket c = None
      then (Rejected (Error ''Not connected to WebSocket''), c)
      else
        (let data1 = (case data0 of
                        JStr s \<Rightarrow> (case parse s of Some v \<Rightarrow> v | None \<Rightarrow> data0)
                      | _ \<Rightarrow> data0);
             isObj = (truthy data1 \<and> typeof data1 = ''object'');
             inject = (isObj \<and> get_prop c ''useAuthentication'' = PBool True
                         \<and> priv_authenticated c)
         in case (if inject then map_option (\<lambda>t. set_field ''token'' (JStr t) data1)
                                   (to_string (token (priv_token c)))
                  else Some data1) of
              None \<Rightarrow> (Threw (TypeError ''Cannot convert object to primitive value''), c)
            | Some data2 \<Rightarrow>
                (let frame = (if isObj then stringify_val data2 else data2)
                 in (Returned, c\<lparr>trace := trace c @ [SocketSend frame]\<rparr>))))"

section \<open>Events\<close>

text \<open>What can happen to a connection: an event of its socket (only while it has one),
  the settling of a login in flight (rejected, or resolved with the decoded body), and a
  call of its interface. A frame, and a payload given to \<^verbatim>\<open>send\<close>, comes with what
  \<^verbatim>\<open>JSON.parse\<close> makes of it when it is a string. \<open>fire\<close> is \<open>None\<close> when the event
  cannot happen in the state. A handler that throws before it changes anything leaves the
  state as it is.\<close>

datatype event =
    WSOpen
  | WSMessage int jsval "jsval option"
  | WSError jsval
  | WSClose jsval
  | LoginSettled "exn + jsval"
  | CallReconnect bool
  | CallDisconnect
  | CallSend jsval "jsval option"
  | CallFetch string jsval
  | CallSetAuthenticated jsval "string option"
  | CallOn string nat

fun fire :: "event \<Rightarrow> conn \<Rightarrow> conn option" where
  "fire WSOpen c = (if socket c = None then None else Some (onWSOpen c))"
| "fire (WSMessage now d parsed) c =
     (if socket c = None then None else Some (snd (onWSMessage (\<lambda>s. parsed) now d c)))"
| "fire (WSError err) c =
     (if socket c = None then None
      else Some (case onWSError err c of Inl e \<Rightarrow> c | Inr c' \<Rightarrow> c'))"
| "fire (WSClose evt) c =
     (case onWSClose evt c of Inl e \<Rightarrow> None | Inr c' \<Rightarrow> Some c')"
| "fire (LoginSettled outcome) c =
     (if pending_login c = 0 then None else Some (login_settled outcome c))"
| "fire (CallReconnect initial) c = Some (reconnect initial c)"
| "fire CallDisconnect c = Some (disconnect c)"
| "fire (CallSend d parsed) c = Some (snd (send (\<lambda>s. parsed) d c))"
| "fire (CallFetch path opts) c = Some (snd (fetch path opts c))"
| "fire (CallSetAuthenticated tok k) c = Some (setAuthenticated tok k c)"
| "fire (CallOn name l) c = Some (c\<lparr>listeners := listeners c @ [(name, l)]\<rparr>)"

fun run :: "event list \<Rightarrow> conn \<Rightarrow> conn option" where
  "run [] c = Some c"
| "run (e # es) c = (case fire e c of None \<Rightarrow> None | Some c' \<Rightarrow> run es c')"

text \<open>Counting in a trace.\<close>

definition emitted :: "string \<Rightarrow> conn \<Rightarrow> nat" where
  "emitted name c = length (filter (\<lambda>e. case e of Emit n a \<Rightarrow> n = name | _ \<Rightarrow> False) (trace c))"

definition sockets_opened :: "conn \<Rightarrow> nat" where
  "sockets_opened c = length (filter (\<lambda>e. case e of NewWebSocket u \<Rightarrow> True | _ \<Rightarrow> False) (trace c))"

definition cleanups :: "conn \<Rightarrow> nat" where
  "cleanups c = length (filter (\<lambda>e. e = RemoveAllListeners) (trace c))"

definition http_fetches :: "conn \<Rightarrow> nat" where
  "http_fetches c = length (filter (\<lambda>e. case e of HttpFetch u opts \<Rightarrow> True | _ \<Rightarrow> False) (trace c))"


text \<open>Kinds of events.\<close>

fun is_close :: "event \<Rightarrow> bool" where
  "is_close (WSClose evt) = True"
| "is_close e = False"

text \<open>The events that come from the transports.\<close>

fun from_transport :: "event \<Rightarrow> bool" where
  "from_transport WSOpen = True"
| "from_transport (WSMessage now d parsed) = True"
| "from_transport (WSError err) = True"
| "from_transport (WSClose evt) = True"
| "from_transport (LoginSettled outcome) = True"
| "from_transport e = False"

text \<open>The calls of the interface.\<close>

fun is_call :: "event \<Rightarrow> bool" where
  "is_call (CallReconnect initial) = True"
| "is_call CallDisconnect = True"
| "is_call (CallSend d parsed) = True"
| "is_call (CallFetch path opts) = True"
| "is_call (CallSetAuthenticated tok k) = True"
| "is_call (CallOn name l) = True"
| "is_call e = False"

text \<open>The calls of \<^verbatim>\<open>reconnect\<close> and \<^verbatim>\<open>disconnect\<close>.\<close>

fun is_reconnect_call :: "event \<Rightarrow> bool" where
  "is_reconnect_call (CallReconnect initial) = True"
| "is_reconnect_call CallDisconnect = True"
| "is_reconnect_call e = False"

text \<open>By how much an event raises the retry counter: a closure by one, and an error event
  by one (the handler of an error that is \<^verbatim>\<open>null\<close> or \<^verbatim>\<open>undefined\<close> throws before
  it counts). \<open>increments\<close> is the number of closures and errors of a history.\<close>

fun increments_of :: "event \<Rightarrow> nat" where
  "increments_of (WSClose evt) = 1"
| "increments_of (WSError err) = (if err = JNull \<or> err = JUndefined then 0 else 1)"
| "increments_of e = 0"

definition increments :: "event list \<Rightarrow> nat" where
  "increments es = sum_list (map increments_of es)"

text \<open>Options for the examples: a server on \<^verbatim>\<open>localhost:3000\<close>, one retry, without and
  with authentication.\<close>

definition example_options :: connection_options where
  "example_options =
     \<lparr>hostname = ''localhost'', port = 3000, useTLS = None, version = ''v1'',
      useAuthentication = Some False, opt_reconnect = None, maxRetries = Some 1,
      username = None, password = None, bearerTokenPrefix = None\<rparr>"

definition auth_options :: connection_options where
  "auth_options = example_options\<lparr>useAuthentication := Some True\<rparr>"

text \<open>An event object of the socket, of which the handlers read nothing.\<close>

definition some_event :: jsval where
  "some_event = JObj []"

text \<open>A login reply without a \<^verbatim>\<open>type\<close>, and the state after the constructor (with
  authentication) and this reply.\<close>

definition login_reply :: jsval where
  "login_reply = JObj [(''token'', JStr ''abc'')]"

definition logged_in :: conn where
  "logged_in = login_settled (Inr login_reply) (constructor auth_options)"

text \<open>The handshake of the specification, for a given value of \<^verbatim>\<open>self\<close>.\<close>

definition handshake :: "jsval \<Rightarrow> jsval" where
  "handshake self_value =
     JObj [(''name'', JStr ''signalk''), (''version'', JStr ''1.0''),
           (''roles'', JArr [JStr ''master'']), (''self'', self_value)]"

text \<open>The disconnect intent is set while a stream exists or is being set up.\<close>

definition intent_held :: "conn \<Rightarrow> bool" where
  "intent_held c = (shouldDisconnect c \<and> (isConnecting c \<or> socket c \<noteq> None))"

text \<open>A login attempt has ended, the connecting flag is set and there is no socket.\<close>

definition stuck :: "conn \<Rightarrow> bool" where
  "stuck c = (isConnecting c \<and> socket c = None \<and> pending_login c = 0)"

text \<open>The login promise is rejected, or resolves with something that is not an object
  with a \<^verbatim>\<open>token\<close> property.\<close>

definition login_fails :: "exn + jsval \<Rightarrow> bool" where
  "login_fails outcome =
     (case outcome of
        Inl e \<Rightarrow> True
      | Inr result \<Rightarrow>
          (if truthy result \<and> typeof result = ''object''
           then hasOwnProperty result ''token'' \<noteq> Inr True else True))"

text \<open>The state after the constructor with authentication and a login request that is
  rejected.\<close>

definition login_failed :: conn where
  "login_failed = login_settled (Inl (Error ''Failed to fetch'')) (constructor auth_options)"

text \<open>What \<^verbatim>\<open>reconnect\<close> does once it is past its guards and goes on to connect
  (lines 138 to 181).\<close>

definition connect_now :: "conn \<Rightarrow> conn" where
  "connect_now c =
     (let c1 = c\<lparr>priv_fetchReady := False, shouldDisconnect := False, isConnecting := True\<rparr>
      in if useAuthentication (options c1) = Some False
         then initiateSocket (emit ''fetchReady'' NoArg (c1\<lparr>priv_fetchReady := True\<rparr>))
         else (case fetch ''/auth/login'' (authRequest (options c1)) c1 of
                 (Inr rq, c2) \<Rightarrow> c2\<lparr>pending_login := Suc (pending_login c2)\<rparr>
               | (Inl e, c2) \<Rightarrow> c2))"

text \<open>At most one login is in flight, and then there is no socket and the connecting
  flag is set.\<close>

definition login_inv :: "conn \<Rightarrow> bool" where
  "login_inv c =
     (pending_login c \<le> 1 \<and> (pending_login c = 1 \<longrightarrow> socket c = None \<and> isConnecting c))"

text \<open>No socket, no attempt under way and no login in flight.\<close>

definition at_rest :: "conn \<Rightarrow> bool" where
  "at_rest c = (socket c = None \<and> \<not> isConnecting c \<and> pending_login c = 0)"

section \<open>The URI builder\<close>

text \<open>Claim C8. The address \<^verbatim>\<open>buildURI\<close> returns for the stream kind (protocol
  \<^verbatim>\<open>ws\<close>) and the request kind (protocol \<^verbatim>\<open>http\<close>) is, for all options: the scheme
  (\<^verbatim>\<open>wss\<close> or \<^verbatim>\<open>https\<close> when \<^verbatim>\<open>useTLS\<close> is true, \<^verbatim>\<open>ws\<close> or \<^verbatim>\<open>http\<close> otherwise),
  \<^verbatim>\<open>://\<close>, the host name, the port suffix, which is empty exactly when the port is 80 and
  otherwise a colon and the port, and the path \<^verbatim>\<open>/signalk/\<close> with the version, followed
  by \<^verbatim>\<open>/stream?subscribe=none\<close> for the stream kind and by \<^verbatim>\<open>/api\<close> for the request
  kind. The builder is a total function of the options and the kind: it reads nothing else
  and has no error result.\<close>

theorem buildURI_rules:
  "buildURI opts (protocol_of k) =
     spec_scheme opts k @ ''://'' @ hostname opts @ spec_port_suffix opts @ spec_path opts k
   \<and> (spec_port_suffix opts = [] \<longleftrightarrow> port opts = 80)"
  by (cases k) (simp_all add: buildURI_def protocol_of_def spec_scheme_def spec_port_suffix_def
      spec_path_def Let_def string_of_int_def string_of_nat.simps)

lemma buildURI_examples:
  "buildURI example_options ''ws'' = ''ws://localhost:3000/signalk/v1/stream?subscribe=none''"
  "buildURI (example_options\<lparr>useTLS := Some True, port := 80\<rparr>) ''http''
     = ''https://localhost/signalk/v1/api''"
  by (simp_all add: buildURI_def example_options_def string_of_int_def string_of_nat.simps
      digit_char_def)

section \<open>The readiness field of \<^verbatim>\<open>state()\<close>\<close>

text \<open>Claim C10. In every state of the manager the field \<^verbatim>\<open>ready\<close> of the object
  \<^verbatim>\<open>state()\<close> returns is \<^verbatim>\<open>undefined\<close>, and so never \<^verbatim>\<open>true\<close>, whatever the internal
  flag \<^verbatim>\<open>_fetchReady\<close> holds: the method reads the property \<^verbatim>\<open>fetchReady\<close>, which the
  object does not have.\<close>

theorem state_ready_undefined:
  "ready (state c) = PUndefined
   \<and> ready (state c) \<noteq> PBool True
   \<and> ready (state (c\<lparr>priv_fetchReady := True\<rparr>)) = PUndefined
   \<and> get_prop (c\<lparr>priv_fetchReady := True\<rparr>) ''_fetchReady'' = PBool True"
  by (simp add: state_def get_prop_def properties_def method_names_def)

lemma state_ready_example:
  "priv_fetchReady (constructor example_options)
   \<and> state (constructor example_options)
       = \<lparr>connecting = PBool True, st_connected = PBool False, ready = PUndefined\<rparr>"
  by (simp add: constructor_def reconnect_def new_connection_def example_options_def
      initiateSocket_def emit_def state_def get_prop_def properties_def method_names_def)

section \<open>Sending without a connection\<close>

text \<open>Claim C5. For every payload, a call of \<^verbatim>\<open>send\<close> made while \<^verbatim>\<open>connected\<close> is not
  true, or while there is no socket, returns a rejected promise that carries the error
  \<^verbatim>\<open>Not connected to WebSocket\<close>. It does not throw, and it leaves the state as it is:
  nothing is emitted (no \<^verbatim>\<open>error\<close> signal) and nothing is handed to a socket.\<close>

theorem send_not_connected:
  "\<not> connected c \<or> socket c = None \<Longrightarrow>
     send parse d c = (Rejected (Error ''Not connected to WebSocket''), c)"
  by (auto simp add: send_def)

theorem send_not_connected_witness:
  "\<not> connected (new_connection example_options)
   \<and> send (\<lambda>s. None) (JObj [(''a'', JNum 1)]) (new_connection example_options)
       = (Rejected (Error ''Not connected to WebSocket''), new_connection example_options)"
proof -
  have h: "\<not> connected (new_connection example_options)"
    by (simp add: new_connection_def)
  then have "\<not> connected (new_connection example_options)
      \<or> socket (new_connection example_options) = None"
    by simp
  from send_not_connected [OF this] h show ?thesis
    by simp
qed

section \<open>Normalisation of the request path\<close>

text \<open>Claim C7. For every path \<open>p\<close> that does not begin with a slash, \<^verbatim>\<open>fetch(p, opts)\<close>
  and \<^verbatim>\<open>fetch('/' + p, opts)\<close> hand the same address, and the same options, to the
  request transport (or throw the same exception), for all \<open>opts\<close> and in every
  state.\<close>

theorem fetch_leading_slash:
  "\<not> starts_with p ''/'' \<Longrightarrow> fetch p opts c = fetch (''/'' @ p) opts c"
  by (cases p) (auto simp add: fetch_def fetch_request_def charAt0_def)

theorem fetch_leading_slash_witness:
  "\<not> starts_with ''auth/login'' ''/''
   \<and> fetch ''auth/login'' JUndefined (new_connection example_options)
     = fetch ''/auth/login'' JUndefined (new_connection example_options)
   \<and> map_sum id fst (fst (fetch ''auth/login'' JUndefined (new_connection example_options)))
     = Inr ''http://localhost:3000/signalk/v1/auth/login''"
proof -
  have h: "\<not> starts_with ''auth/login'' ''/''" by simp
  have e: "map_sum id fst (fst (fetch ''/auth/login'' JUndefined (new_connection example_options)))
     = Inr ''http://localhost:3000/signalk/v1/auth/login''"
    by (simp add: fetch_def fetch_request_def charAt0_def new_connection_def example_options_def
       buildURI_def rewrite_uri_def string_of_int_def string_of_nat.simps digit_char_def Let_def)
  from fetch_leading_slash [OF h, of JUndefined "new_connection example_options"] h e
  show ?thesis by simp
qed

section \<open>Reachable example states\<close>

lemma map_of_put_prop_same [simp]: "map_of (put_prop k v kvs) k = Some v"
  by (induction kvs) auto

lemma map_of_put_prop_other [simp]: "k' \<noteq> k \<Longrightarrow> map_of (put_prop k v kvs) k' = map_of kvs k'"
  by (induction kvs) auto

lemma constructor_auth:
  "constructor auth_options =
     (new_connection auth_options)
       \<lparr>isConnecting := True, pending_login := 1,
        trace := [HttpFetch ''http://localhost:3000/signalk/v1/auth/login''
                   (own_props (authRequest auth_options)
                     @ [(''headers'', default_headers)])]\<rparr>"
  by (simp add: constructor_def reconnect_def new_connection_def auth_options_def
      example_options_def fetch_def fetch_request_def charAt0_def buildURI_def rewrite_uri_def
      string_of_int_def string_of_nat.simps digit_char_def Let_def authRequest_def)

lemma logged_in_eq:
  "logged_in =
     (new_connection auth_options)
       \<lparr>isConnecting := True, pending_login := 0,
        priv_authenticated := True, priv_fetchReady := True,
        priv_token := \<lparr>kind = ''Bearer'', token = JStr ''abc''\<rparr>,
        socket := Some \<lparr>ws_uri = ''ws://localhost:3000/signalk/v1/stream?subscribe=none'',
                       ws_listeners = [''message'', ''open'', ''error'', ''close''],
                       ws_close_requested = False\<rparr>,
        trace := [HttpFetch ''http://localhost:3000/signalk/v1/auth/login''
                   (own_props (authRequest auth_options)
                     @ [(''headers'', default_headers)]),
                  Emit ''fetchReady'' NoArg,
                  NewWebSocket ''ws://localhost:3000/signalk/v1/stream?subscribe=none'']\<rparr>"
  unfolding logged_in_def constructor_auth
  by (simp add: login_settled_def login_then_def login_reply_def hasOwnProperty_def
      get_field_def initiateSocket_def emit_def new_connection_def auth_options_def
      example_options_def buildURI_def string_of_int_def string_of_nat.simps digit_char_def)

section \<open>The token in outgoing frames\<close>

text \<open>Claim C3 says that a structured payload sent while the manager is connected and
  authenticated reaches the socket as JSON text with the original fields and an added
  \<^verbatim>\<open>token\<close> field. The source guards the injection (line 278) with
  \<^verbatim>\<open>this.useAuthentication === true\<close>, a property the object does not have (the option
  is \<^verbatim>\<open>this.options.useAuthentication\<close>), so the guard is never passed. What holds
  instead: for every state that is connected and has a socket, authenticated or not, and
  every payload that is an object or an array, \<^verbatim>\<open>send\<close> hands the socket the
  serialisation of the payload as it was given, with no field added, and returns.\<close>

theorem send_never_injects_token:
  "connected c \<Longrightarrow> socket c \<noteq> None \<Longrightarrow> truthy d \<Longrightarrow> typeof d = ''object'' \<Longrightarrow>
     send parse d c = (Returned, c\<lparr>trace := trace c @ [SocketSend (stringify_val d)]\<rparr>)"
  by (cases d) (auto simp add: send_def get_prop_def properties_def method_names_def)

text \<open>At the failing input: after the constructor with authentication enabled, a login
  reply \<^verbatim>\<open>{"token":"abc"}\<close> and the open event, the payload \<^verbatim>\<open>{a: 1}\<close> is sent as
  \<^verbatim>\<open>{"a":1}\<close>.\<close>

theorem send_failing_input:
  \<open>priv_authenticated (onWSOpen logged_in)
   \<and> token (priv_token (onWSOpen logged_in)) = JStr ''abc''
   \<and> useAuthentication (options (onWSOpen logged_in)) = Some True
   \<and> send (\<lambda>s. None) (JObj [(''a'', JNum 1)]) (onWSOpen logged_in)
       = (Returned, (onWSOpen logged_in)
            \<lparr>trace := trace (onWSOpen logged_in) @ [SocketSend (JStr ''{"a":1}'')]\<rparr>)\<close>
proof -
  have c: "connected (onWSOpen logged_in)" "socket (onWSOpen logged_in) \<noteq> None"
    unfolding logged_in_eq by (simp_all add: onWSOpen_def emit_def)
  have d: "truthy (JObj [(''a'', JNum 1)])" "typeof (JObj [(''a'', JNum 1)]) = ''object''"
    by simp_all
  have s: \<open>stringify_val (JObj [(''a'', JNum 1)]) = JStr ''{"a":1}''\<close>
    by (simp add: stringify_val_def quote_def escape_char_def string_of_int_def
        string_of_nat.simps digit_char_def)
  have a: "priv_authenticated (onWSOpen logged_in)
      \<and> token (priv_token (onWSOpen logged_in)) = JStr ''abc''
      \<and> useAuthentication (options (onWSOpen logged_in)) = Some True"
    unfolding logged_in_eq
    by (simp add: onWSOpen_def emit_def new_connection_def auth_options_def)
  from send_never_injects_token [OF c d, of "\<lambda>s. None"] a show ?thesis
    unfolding s by simp
qed

section \<open>The credential of a login and the request header\<close>


text \<open>The default label is fixed by the constructor from the option
  \<^verbatim>\<open>bearerTokenPrefix\<close> (\<^verbatim>\<open>Bearer\<close> when the option is missing or empty) and no event
  changes it.\<close>

lemma default_label_reconnect:
  "priv_bearerTokenPrefix (reconnect initial c) = priv_bearerTokenPrefix c"
  by (simp add: reconnect_def socket_close_def cleanupListeners_def emit_def initiateSocket_def
      fetch_def Let_def split: sum.splits)

lemma default_label_fire:
  assumes "fire e c = Some c'"
  shows "priv_bearerTokenPrefix c' = priv_bearerTokenPrefix c"
proof (cases e)
  case WSOpen
  with assms show ?thesis
    by (auto simp add: onWSOpen_def emit_def split: if_splits)
next
  case (WSMessage n d parsed)
  with assms show ?thesis
    by (auto simp add: onWSMessage_def set_connectionInfo_def set_self_def emit_def Let_def
        split: if_splits sum.splits option.splits)
next
  case (WSError err)
  with assms show ?thesis
    by (auto simp add: onWSError_def default_label_reconnect emit_def split: if_splits)
next
  case (WSClose evt)
  with assms show ?thesis
    by (auto simp add: onWSClose_def default_label_reconnect emit_def split: option.splits)
next
  case (LoginSettled r)
  with assms show ?thesis
    by (auto simp add: login_settled_def login_then_def login_catch_def initiateSocket_def
        emit_def Let_def split: if_splits sum.splits)
next
  case (CallReconnect b)
  with assms show ?thesis
    by (auto simp add: default_label_reconnect)
next
  case CallDisconnect
  with assms show ?thesis
    by (auto simp add: disconnect_def default_label_reconnect)
next
  case (CallSend d parsed)
  with assms show ?thesis
    by (auto simp add: send_def Let_def split: option.splits)
next
  case (CallFetch p opts)
  with assms show ?thesis
    by (auto simp add: fetch_def split: sum.splits)
next
  case (CallSetAuthenticated tok k)
  with assms show ?thesis
    by (auto simp add: setAuthenticated_def emit_def)
next
  case (CallOn name l)
  with assms show ?thesis
    by auto
qed

lemma default_label_run:
  "run es c = Some c' \<Longrightarrow> priv_bearerTokenPrefix c' = priv_bearerTokenPrefix c"
proof (induction es arbitrary: c)
  case Nil
  then show ?case by simp
next
  case (Cons e es)
  then obtain c1 where "fire e c = Some c1" and "run es c1 = Some c'"
    by (auto split: option.splits)
  with Cons.IH default_label_fire show ?case
    by metis
qed

lemma default_label_configured:
  assumes "run es (constructor opts) = Some c"
  shows "priv_bearerTokenPrefix c =
     (case bearerTokenPrefix opts of None \<Rightarrow> ''Bearer'' | Some s \<Rightarrow> if s = [] then ''Bearer'' else s)"
  using default_label_run [OF assms]
  by (simp add: constructor_def default_label_reconnect new_connection_def)




section \<open>The handshake frame\<close>

text \<open>Claim C6, amended. When the payload of an inbound frame is, after parsing, an object
  with the keys \<^verbatim>\<open>name\<close>, \<^verbatim>\<open>version\<close> and \<^verbatim>\<open>roles\<close> (and without a key
  \<^verbatim>\<open>hasOwnProperty\<close>, which would make the test itself throw), the handler ends without
  an exception, the connection info is replaced by the object, \<^verbatim>\<open>self\<close> reads the
  \<^verbatim>\<open>self\<close> of the frame, and the signals are, in this order: \<^verbatim>\<open>connectionInfo\<close>, then
  \<^verbatim>\<open>self\<close> unless the \<^verbatim>\<open>self\<close> of the frame is \<^verbatim>\<open>null\<close>, then \<^verbatim>\<open>message\<close>.\<close>

theorem handshake_frame:
  assumes "(case evt_data of JStr s \<Rightarrow> parse s | _ \<Rightarrow> Some evt_data) = Some (JObj kvs)"
    and "''name'' \<in> fst ` set kvs" and "''version'' \<in> fst ` set kvs"
    and "''roles'' \<in> fst ` set kvs" and "''hasOwnProperty'' \<notin> fst ` set kvs"
  shows "fst (onWSMessage parse now evt_data c) = None
    \<and> get_prop (snd (onWSMessage parse now evt_data c)) ''connectionInfo'' = PVal (JObj kvs)
    \<and> get_prop (snd (onWSMessage parse now evt_data c)) ''self''
        = PVal (get_field (JObj kvs) ''self'')
    \<and> trace (snd (onWSMessage parse now evt_data c)) =
        trace c @ [Emit ''connectionInfo'' (Arg (JObj kvs))]
          @ (if get_field (JObj kvs) ''self'' = JNull then []
             else [Emit ''self'' (Arg (get_field (JObj kvs) ''self''))])
          @ [Emit ''message'' (Arg (JObj kvs))]"
  using assms
  by (auto simp add: onWSMessage_def is_handshake_def hasOwnProperty_def set_connectionInfo_def
      set_self_def emit_def get_prop_def properties_def Let_def split: jsval.splits option.splits)

lemma stringify_handshake:
  \<open>stringify_val (handshake (JStr ''vessels.urn:mrn:imo:mmsi:1234'')) =
     JStr ''{"name":"signalk","version":"1.0","roles":["master"],"self":"vessels.urn:mrn:imo:mmsi:1234"}''\<close>
  by (simp add: stringify_val_def handshake_def quote_def escape_char_def)

text \<open>The frame of the specification, received as text after the constructor.\<close>

theorem handshake_frame_witness:
  \<open>get_prop (snd (onWSMessage
       (\<lambda>s. if JStr s = stringify_val (handshake (JStr ''vessels.urn:mrn:imo:mmsi:1234''))
             then Some (handshake (JStr ''vessels.urn:mrn:imo:mmsi:1234'')) else None)
       0 (stringify_val (handshake (JStr ''vessels.urn:mrn:imo:mmsi:1234'')))
       (constructor example_options))) ''self''
     = PVal (JStr ''vessels.urn:mrn:imo:mmsi:1234'')
   \<and> trace (snd (onWSMessage
       (\<lambda>s. if JStr s = stringify_val (handshake (JStr ''vessels.urn:mrn:imo:mmsi:1234''))
             then Some (handshake (JStr ''vessels.urn:mrn:imo:mmsi:1234'')) else None)
       0 (stringify_val (handshake (JStr ''vessels.urn:mrn:imo:mmsi:1234'')))
       (constructor example_options)))
     = trace (constructor example_options)
        @ [Emit ''connectionInfo'' (Arg (handshake (JStr ''vessels.urn:mrn:imo:mmsi:1234''))),
           Emit ''self'' (Arg (JStr ''vessels.urn:mrn:imo:mmsi:1234'')),
           Emit ''message'' (Arg (handshake (JStr ''vessels.urn:mrn:imo:mmsi:1234'')))]\<close>
proof -
  let ?v = "JStr ''vessels.urn:mrn:imo:mmsi:1234''"
  let ?kvs = "[(''name'', JStr ''signalk''), (''version'', JStr ''1.0''),
           (''roles'', JArr [JStr ''master'']), (''self'', ?v)]"
  let ?parse = "\<lambda>s. if JStr s = stringify_val (handshake ?v) then Some (handshake ?v) else None"
  have 1: "(case stringify_val (handshake ?v) of
              JStr s \<Rightarrow> ?parse s | _ \<Rightarrow> Some (stringify_val (handshake ?v)))
      = Some (JObj ?kvs)"
    unfolding stringify_handshake by (simp add: handshake_def)
  have 2: "''name'' \<in> fst ` set ?kvs" "''version'' \<in> fst ` set ?kvs"
    "''roles'' \<in> fst ` set ?kvs" "''hasOwnProperty'' \<notin> fst ` set ?kvs"
    by simp_all
  have 3: "get_field (JObj ?kvs) ''self'' = ?v"
    by (simp add: get_field_def)
  from handshake_frame [OF 1 2, of 0 "constructor example_options"]
  show ?thesis
    unfolding 3 by (simp add: handshake_def)
qed

text \<open>The claim as stated fails: a handshake whose \<^verbatim>\<open>self\<close> is \<^verbatim>\<open>null\<close> has the three
  keys, and \<^verbatim>\<open>connectionInfo\<close> is emitted for it, but no \<^verbatim>\<open>self\<close> signal.\<close>

theorem handshake_null_self_counterexample:
  "map_option (\<lambda>c. (emitted ''connectionInfo'' c, emitted ''self'' c, get_prop c ''self''))
     (fire (WSMessage 0 (stringify_val (handshake JNull)) (Some (handshake JNull)))
        (constructor example_options))
   = Some (1, 0, PVal JNull)"
  by (simp add: constructor_def reconnect_def new_connection_def example_options_def
      initiateSocket_def emit_def onWSMessage_def is_handshake_def hasOwnProperty_def
      set_connectionInfo_def set_self_def get_prop_def properties_def handshake_def
      stringify_val_def emitted_def get_field_def Let_def)

section \<open>Disconnecting\<close>

lemma reconnect_guarded:
  "isConnecting c \<or> socket c \<noteq> None \<Longrightarrow>
     reconnect b c = (if isConnecting c then c else socket_close c)"
  by (auto simp add: reconnect_def)

lemma onWSMessage_keeps:
  "shouldDisconnect (snd (onWSMessage p n d c)) = shouldDisconnect c"
  "isConnecting (snd (onWSMessage p n d c)) = isConnecting c"
  "socket (snd (onWSMessage p n d c)) = socket c"
  "pending_login (snd (onWSMessage p n d c)) = pending_login c"
  "priv_retries (snd (onWSMessage p n d c)) = priv_retries c"
  "options (snd (onWSMessage p n d c)) = options c"
  "listeners (snd (onWSMessage p n d c)) = listeners c"
  "emitted ''hitMaxRetries'' (snd (onWSMessage p n d c)) = emitted ''hitMaxRetries'' c"
  "sockets_opened (snd (onWSMessage p n d c)) = sockets_opened c"
  "cleanups (snd (onWSMessage p n d c)) = cleanups c"
  by (simp_all add: onWSMessage_def set_connectionInfo_def set_self_def emit_def Let_def
      emitted_def sockets_opened_def cleanups_def
      split: sum.splits option.splits prod.splits)

lemma send_keeps:
  "shouldDisconnect (snd (send p d c)) = shouldDisconnect c"
  "isConnecting (snd (send p d c)) = isConnecting c"
  "socket (snd (send p d c)) = socket c"
  "pending_login (snd (send p d c)) = pending_login c"
  "sockets_opened (snd (send p d c)) = sockets_opened c"
  "cleanups (snd (send p d c)) = cleanups c"
  by (simp_all add: send_def Let_def sockets_opened_def cleanups_def split: option.splits)

lemma fetch_keeps:
  "shouldDisconnect (snd (fetch p d c)) = shouldDisconnect c"
  "isConnecting (snd (fetch p d c)) = isConnecting c"
  "socket (snd (fetch p d c)) = socket c"
  "pending_login (snd (fetch p d c)) = pending_login c"
  "sockets_opened (snd (fetch p d c)) = sockets_opened c"
  "cleanups (snd (fetch p d c)) = cleanups c"
  by (simp_all add: fetch_def sockets_opened_def cleanups_def split: sum.splits)

lemma login_settled_keeps:
  "shouldDisconnect (login_settled r c) = shouldDisconnect c"
  "isConnecting (login_settled r c) = isConnecting c"
  "socket c \<noteq> None \<Longrightarrow> socket (login_settled r c) \<noteq> None"
  by (simp_all add: login_settled_def login_then_def login_catch_def emit_def initiateSocket_def
      Let_def split: sum.splits)

lemma intent_held_fire:
  assumes "intent_held c" and "\<not> is_close e" and "fire e c = Some c'"
  shows "intent_held c'"
proof (cases e)
  case WSOpen
  with assms show ?thesis
    by (auto simp add: intent_held_def onWSOpen_def emit_def split: if_splits)
next
  case (WSMessage n d parsed)
  with assms show ?thesis
    by (auto simp add: intent_held_def onWSMessage_keeps split: if_splits)
next
  case (WSError err)
  with assms show ?thesis
    by (auto simp add: intent_held_def onWSError_def reconnect_guarded emit_def socket_close_def
        split: if_splits)
next
  case (WSClose evt)
  with assms show ?thesis by simp
next
  case (LoginSettled r)
  with assms show ?thesis
    by (auto simp add: intent_held_def login_settled_keeps split: if_splits)
next
  case (CallReconnect b)
  with assms show ?thesis
    by (auto simp add: intent_held_def reconnect_guarded socket_close_def split: if_splits)
next
  case CallDisconnect
  with assms show ?thesis
    by (auto simp add: intent_held_def disconnect_def reconnect_guarded socket_close_def
        split: if_splits)
next
  case (CallSend d parsed)
  with assms show ?thesis
    by (auto simp add: intent_held_def send_keeps)
next
  case (CallFetch p opts)
  with assms show ?thesis
    by (auto simp add: intent_held_def fetch_keeps)
next
  case (CallSetAuthenticated tok k)
  with assms show ?thesis
    by (auto simp add: intent_held_def setAuthenticated_def emit_def)
next
  case (CallOn name l)
  with assms show ?thesis
    by (auto simp add: intent_held_def)
qed

lemma intent_held_run:
  "intent_held c \<Longrightarrow> \<forall>e \<in> set es. \<not> is_close e \<Longrightarrow> run es c = Some c' \<Longrightarrow> intent_held c'"
proof (induction es arbitrary: c)
  case Nil
  then show ?case by simp
next
  case (Cons e es)
  then obtain c1 where 1: "fire e c = Some c1" and 2: "run es c1 = Some c'"
    by (auto split: option.splits)
  from Cons.prems(1,2) 1 have "intent_held c1"
    by (auto intro: intent_held_fire)
  with Cons.IH 2 Cons.prems(2) show ?case by simp
qed

lemma intent_held_disconnect:
  "isConnecting c \<or> socket c \<noteq> None \<Longrightarrow> intent_held (disconnect c)"
  by (auto simp add: intent_held_def disconnect_def reconnect_guarded socket_close_def)

lemma reconnect_stops:
  "\<not> isConnecting c \<Longrightarrow> socket c = None \<Longrightarrow> shouldDisconnect c \<Longrightarrow>
     reconnect False c =
       cleanupListeners (if Some (priv_retries c) = maxRetries (options c)
                         then emit ''hitMaxRetries'' NoArg c else c)"
  by (simp add: reconnect_def)

lemma close_with_intent:
  assumes "shouldDisconnect c" and "fire (WSClose evt) c = Some c'"
  shows "sockets_opened c' = sockets_opened c \<and> http_fetches c' = http_fetches c
     \<and> pending_login c' = pending_login c
     \<and> socket c' = None \<and> \<not> isConnecting c' \<and> \<not> connected c'
     \<and> listeners c' = [] \<and> cleanups c' = Suc (cleanups c)
     \<and> trace c' = trace c @ [Emit ''disconnect'' (Arg evt)]
          @ (if Some (priv_retries c + 1) = maxRetries (options c)
             then [Emit ''hitMaxRetries'' NoArg] else [])
          @ [RemoveAllListeners]"
proof -
  from assms(2) obtain w where w: "socket c = Some w"
    by (auto simp add: onWSClose_def split: option.splits)
  let ?c0 = "emit ''disconnect'' (Arg evt)
               (c\<lparr>socket := None, connected := False, isConnecting := False,
                  priv_retries := priv_retries c + 1\<rparr>)"
  have c': "c' = reconnect False ?c0"
    using assms(2) w by (simp add: onWSClose_def)
  have "\<not> isConnecting ?c0" "socket ?c0 = None" "shouldDisconnect ?c0"
    using assms(1) by (simp_all add: emit_def)
  then have "reconnect False ?c0 =
      cleanupListeners (if Some (priv_retries ?c0) = maxRetries (options ?c0)
                        then emit ''hitMaxRetries'' NoArg ?c0 else ?c0)"
    by (rule reconnect_stops)
  then show ?thesis
    unfolding c'
    by (simp add: cleanupListeners_def emit_def sockets_opened_def http_fetches_def
        cleanups_def)
qed

text \<open>Claim C2. Let \<^verbatim>\<open>disconnect()\<close> be called while a stream exists or is being set
  up. Whatever happens next short of a close event (events of the socket, the settling of
  a login, calls of the interface), at the next close event of the transport the handler
  opens no new stream and issues no login request: it emits \<^verbatim>\<open>disconnect\<close>, then
  \<^verbatim>\<open>reconnect()\<close> stops and releases all listeners (after \<^verbatim>\<open>hitMaxRetries\<close>, when this
  closure brings the retry counter to \<^verbatim>\<open>maxRetries\<close>), and the manager is left without a
  socket, not connecting and not connected.\<close>

theorem disconnect_then_close:
  assumes "isConnecting c \<or> socket c \<noteq> None"
    and "\<forall>e \<in> set es. \<not> is_close e"
    and "run es (disconnect c) = Some c1"
    and "fire (WSClose evt) c1 = Some c2"
  shows "sockets_opened c2 = sockets_opened c1 \<and> http_fetches c2 = http_fetches c1
     \<and> pending_login c2 = pending_login c1
     \<and> socket c2 = None \<and> \<not> isConnecting c2 \<and> \<not> connected c2
     \<and> listeners c2 = [] \<and> cleanups c2 = Suc (cleanups c1)
     \<and> trace c2 = trace c1 @ [Emit ''disconnect'' (Arg evt)]
          @ (if Some (priv_retries c1 + 1) = maxRetries (options c1)
             then [Emit ''hitMaxRetries'' NoArg] else [])
          @ [RemoveAllListeners]"
proof -
  from assms(1) have "intent_held (disconnect c)"
    by (rule intent_held_disconnect)
  with assms(2,3) have "intent_held c1"
    by (blast intro: intent_held_run)
  then have "shouldDisconnect c1"
    by (simp add: intent_held_def)
  from this assms(4) show ?thesis
    by (rule close_with_intent)
qed

text \<open>After the constructor (no authentication): \<^verbatim>\<open>disconnect()\<close> while connecting, the
  open event, then the close event.\<close>

theorem disconnect_then_close_witness:
  "map_option (\<lambda>c2. (sockets_opened c2, socket c2, isConnecting c2, listeners c2, cleanups c2))
     (case run [WSOpen] (disconnect (constructor (example_options\<lparr>maxRetries := Some 5\<rparr>))) of
        None \<Rightarrow> None
      | Some c1 \<Rightarrow> fire (WSClose some_event) c1)
   = Some (1, None, False, [], 1)"
proof -
  let ?c = "constructor (example_options\<lparr>maxRetries := Some 5\<rparr>)"
  have c: "isConnecting ?c" "socket ?c \<noteq> None" "sockets_opened ?c = 1" "cleanups ?c = 0"
    by (simp_all add: constructor_def reconnect_def new_connection_def example_options_def
        initiateSocket_def emit_def sockets_opened_def cleanups_def)
  have d: "disconnect ?c = ?c\<lparr>shouldDisconnect := True\<rparr>"
    using c(1) by (simp add: disconnect_def reconnect_def)
  define c1 where "c1 = onWSOpen (disconnect ?c)"
  have r: "run [WSOpen] (disconnect ?c) = Some c1"
    using c(2) by (simp add: c1_def d)
  have c1: "socket c1 \<noteq> None" "sockets_opened c1 = 1" "cleanups c1 = 0"
    using c by (simp_all add: c1_def d onWSOpen_def emit_def sockets_opened_def cleanups_def)
  then obtain c2 where f: "fire (WSClose some_event) c1 = Some c2"
    by (auto simp add: onWSClose_def)
  have a: "isConnecting ?c \<or> socket ?c \<noteq> None"
    using c(1) by simp
  have q: "\<forall>e \<in> set [WSOpen]. \<not> is_close e"
    by simp
  from disconnect_then_close [OF a q r f] c1
  have "sockets_opened c2 = 1 \<and> socket c2 = None \<and> \<not> isConnecting c2
      \<and> listeners c2 = [] \<and> cleanups c2 = 1"
    by simp
  then show ?thesis
    unfolding r option.case f by simp
qed

section \<open>A failed login\<close>

lemma login_settled_fails:
  "login_fails outcome \<Longrightarrow>
     \<exists>e. login_settled outcome c = login_catch e (c\<lparr>pending_login := pending_login c - 1\<rparr>)"
  by (auto simp add: login_fails_def login_settled_def login_then_def Let_def
      split: sum.splits if_splits)

lemma stuck_fire:
  assumes "stuck c" and "fire e c = Some c'"
  shows "stuck c' \<and> is_call e \<and> sockets_opened c' = sockets_opened c
     \<and> cleanups c' = cleanups c \<and> (\<exists>ls. listeners c' = listeners c @ ls)"
proof (cases e)
  case (CallReconnect b)
  with assms show ?thesis
    by (auto simp add: stuck_def reconnect_def)
next
  case CallDisconnect
  with assms show ?thesis
    by (auto simp add: stuck_def disconnect_def reconnect_def sockets_opened_def cleanups_def)
next
  case (CallSend d parsed)
  with assms show ?thesis
    by (auto simp add: stuck_def send_def)
next
  case (CallFetch p opts)
  with assms show ?thesis
    by (auto simp add: stuck_def fetch_def sockets_opened_def cleanups_def split: sum.splits)
next
  case (CallSetAuthenticated tok k)
  with assms show ?thesis
    by (auto simp add: stuck_def setAuthenticated_def emit_def sockets_opened_def cleanups_def)
next
  case (CallOn name l)
  with assms show ?thesis
    by (auto simp add: stuck_def sockets_opened_def cleanups_def)
qed (use assms in \<open>auto simp add: stuck_def onWSClose_def\<close>)

lemma stuck_run:
  "stuck c \<Longrightarrow> run es c = Some c' \<Longrightarrow>
     stuck c' \<and> (\<forall>e \<in> set es. is_call e) \<and> sockets_opened c' = sockets_opened c
     \<and> cleanups c' = cleanups c \<and> (\<exists>ls. listeners c' = listeners c @ ls)"
proof (induction es arbitrary: c)
  case Nil
  then show ?case by simp
next
  case (Cons e es)
  then obtain c1 where 1: "fire e c = Some c1" and 2: "run es c1 = Some c'"
    by (auto split: option.splits)
  from stuck_fire [OF Cons.prems(1) 1] Cons.IH [OF _ 2] show ?case
    by auto
qed

text \<open>A response that is not ok rejects the promise of \<^verbatim>\<open>fetch\<close>; a JSON response
  resolves it with the decoded body.\<close>

lemma fetch_then_not_ok:
  "\<not> ok response \<Longrightarrow> login_fails (fetch_then parse uri response)"
  by (simp add: fetch_then_def login_fails_def)

lemma fetch_then_json:
  "ok response \<Longrightarrow> content_type response = Some ''application/json'' \<Longrightarrow>
     parse (body response) = Some v \<Longrightarrow> fetch_then parse uri response = Inr v"
  by (simp add: fetch_then_def)

text \<open>Claim C9, amended. Let a login be in flight (the connecting flag set, no socket),
  and let it fail: the request is rejected, or it resolves with something that is not an
  object with a \<^verbatim>\<open>token\<close> property. Then an \<^verbatim>\<open>error\<close> signal is emitted and the
  connecting flag stays set with no socket, in that state and in every state that any
  history of events leads to from it. Only calls of the interface can happen there; none
  of them opens a socket or releases the listeners (the listener list only grows);
  \<^verbatim>\<open>reconnect\<close>, with either argument, returns the state as it is, and \<^verbatim>\<open>disconnect\<close>
  changes nothing but the flag \<^verbatim>\<open>shouldDisconnect\<close>, which it sets.\<close>

theorem failed_login_sticks:
  assumes "isConnecting c" and "socket c = None" and "pending_login c = 1"
    and "login_fails outcome"
  shows "isConnecting (login_settled outcome c) \<and> socket (login_settled outcome c) = None
     \<and> emitted ''error'' (login_settled outcome c) = Suc (emitted ''error'' c)
     \<and> (\<forall>es c'. run es (login_settled outcome c) = Some c' \<longrightarrow>
           isConnecting c' \<and> socket c' = None
           \<and> (\<forall>e \<in> set es. is_call e)
           \<and> sockets_opened c' = sockets_opened c
           \<and> cleanups c' = cleanups c
           \<and> (\<exists>ls. listeners c' = listeners c @ ls)
           \<and> (\<forall>initial. reconnect initial c' = c')
           \<and> disconnect c' = c'\<lparr>shouldDisconnect := True\<rparr>)"
proof -
  let ?c = "login_settled outcome c"
  from login_settled_fails [OF assms(4)]
  obtain e where e: "?c = login_catch e (c\<lparr>pending_login := pending_login c - 1\<rparr>)"
    by blast
  have s: "stuck ?c" and k: "sockets_opened ?c = sockets_opened c" "cleanups ?c = cleanups c"
      "listeners ?c = listeners c" "emitted ''error'' ?c = Suc (emitted ''error'' c)"
    unfolding e using assms(1-3)
    by (simp_all add: stuck_def login_catch_def emit_def sockets_opened_def cleanups_def
        emitted_def Let_def)
  have "isConnecting c' \<and> socket c' = None
           \<and> (\<forall>e \<in> set es. is_call e)
           \<and> sockets_opened c' = sockets_opened c
           \<and> cleanups c' = cleanups c
           \<and> (\<exists>ls. listeners c' = listeners c @ ls)
           \<and> (\<forall>initial. reconnect initial c' = c')
           \<and> disconnect c' = c'\<lparr>shouldDisconnect := True\<rparr>"
    if "run es ?c = Some c'" for es c'
  proof -
    from stuck_run [OF s that] k have r: "stuck c'" "\<forall>e \<in> set es. is_call e"
      "sockets_opened c' = sockets_opened c" "cleanups c' = cleanups c"
      "\<exists>ls. listeners c' = listeners c @ ls"
      by simp_all
    from r(1) have "\<forall>initial. reconnect initial c' = c'"
      "disconnect c' = c'\<lparr>shouldDisconnect := True\<rparr>"
      by (simp_all add: stuck_def reconnect_def disconnect_def)
    with r show ?thesis
      by (simp add: stuck_def)
  qed
  with s k show ?thesis
    by (simp add: stuck_def)
qed

lemma login_failed_eq:
  "login_failed =
     (constructor auth_options)
       \<lparr>pending_login := 0,
        trace := trace (constructor auth_options)
                  @ [Emit ''error'' (ErrArg (Error ''Failed to fetch'')),
                     UnhandledRejection (Error ''Failed to fetch'')]\<rparr>"
  unfolding login_failed_def constructor_auth
  by (simp add: login_settled_def login_catch_def emit_def Let_def)

text \<open>After the constructor with authentication and a rejected login request.\<close>

theorem failed_login_sticks_witness:
  "isConnecting login_failed \<and> socket login_failed = None
   \<and> map_option (\<lambda>c. (isConnecting c, socket c, sockets_opened c, cleanups c))
       (run [CallReconnect False, CallDisconnect, CallReconnect True] login_failed)
     = Some (True, None, 0, 0)"
proof -
  let ?c = "constructor auth_options"
  have h: "isConnecting ?c" "socket ?c = None" "pending_login ?c = 1"
    unfolding constructor_auth by (simp_all add: new_connection_def)
  have f: "login_fails (Inl (Error ''Failed to fetch''))"
    by (simp add: login_fails_def)
  have z: "sockets_opened ?c = 0" "cleanups ?c = 0"
    unfolding constructor_auth by (simp_all add: sockets_opened_def cleanups_def)
  obtain c' where r: "run [CallReconnect False, CallDisconnect, CallReconnect True] login_failed = Some c'"
    by simp
  note t = failed_login_sticks [OF h f, folded login_failed_def]
  from t have a: "isConnecting login_failed \<and> socket login_failed = None"
    by blast
  from t r have "isConnecting c' \<and> socket c' = None
      \<and> sockets_opened c' = sockets_opened ?c \<and> cleanups c' = cleanups ?c"
    by blast
  with a z show ?thesis
    unfolding r by simp
qed

text \<open>The claim as stated fails in one respect: in the state after the failed login,
  \<^verbatim>\<open>disconnect()\<close> is not a no-op, it sets the flag \<^verbatim>\<open>shouldDisconnect\<close>.\<close>

theorem disconnect_not_noop_counterexample:
  "isConnecting login_failed \<and> socket login_failed = None
   \<and> \<not> shouldDisconnect login_failed
   \<and> shouldDisconnect (disconnect login_failed)
   \<and> disconnect login_failed \<noteq> login_failed"
proof -
  have 1: "isConnecting login_failed \<and> socket login_failed = None
      \<and> \<not> shouldDisconnect login_failed"
    unfolding login_failed_eq constructor_auth by (simp add: new_connection_def)
  then have 2: "shouldDisconnect (disconnect login_failed)"
    by (simp add: disconnect_def reconnect_def)
  from 1 2 show ?thesis
    by auto
qed

section \<open>Retry accounting\<close>

lemma fetch_login_Inr:
  "\<exists>uri props. fetch_request c ''/auth/login'' opts = Inr (uri, props)"
  by (simp add: fetch_request_def charAt0_def Let_def)

lemma fetch_login_state:
  "\<exists>uri props. fetch ''/auth/login'' opts c
      = (Inr (uri, props), c\<lparr>trace := trace c @ [HttpFetch uri props]\<rparr>)"
proof -
  from fetch_login_Inr obtain uri props
    where "fetch_request c ''/auth/login'' opts = Inr (uri, props)"
    by blast
  then show ?thesis
    by (simp add: fetch_def)
qed

lemma reconnect_cases:
  "\<not> isConnecting c \<Longrightarrow> socket c = None \<Longrightarrow>
     reconnect initial c =
       (if \<not> initial \<and> Some (priv_retries c) = maxRetries (options c)
          then cleanupListeners (emit ''hitMaxRetries'' NoArg c)
        else if \<not> initial \<and> (opt_reconnect (options c) = Some False \<or> shouldDisconnect c)
          then cleanupListeners c
        else connect_now c)"
  by (simp add: reconnect_def connect_now_def)

lemma connect_now_fields:
  "options (connect_now c) = options c"
  "priv_retries (connect_now c) = priv_retries c"
  "isConnecting (connect_now c)"
  "listeners (connect_now c) = listeners c"
  "emitted ''hitMaxRetries'' (connect_now c) = emitted ''hitMaxRetries'' c"
  "cleanups (connect_now c) = cleanups c"
  "(socket (connect_now c) \<noteq> None \<and> pending_login (connect_now c) = pending_login c)
   \<or> (socket (connect_now c) = socket c \<and> pending_login (connect_now c) = Suc (pending_login c))"
proof -
  obtain uri props where f:
    "fetch ''/auth/login'' (authRequest (options c))
        (c\<lparr>priv_fetchReady := False, shouldDisconnect := False, isConnecting := True\<rparr>)
      = (Inr (uri, props),
         c\<lparr>priv_fetchReady := False, shouldDisconnect := False, isConnecting := True,
           trace := trace c @ [HttpFetch uri props]\<rparr>)"
    using fetch_login_state
      [of "authRequest (options c)"
          "c\<lparr>priv_fetchReady := False, shouldDisconnect := False, isConnecting := True\<rparr>"]
    by auto
  show "options (connect_now c) = options c"
    "priv_retries (connect_now c) = priv_retries c"
    "isConnecting (connect_now c)"
    "listeners (connect_now c) = listeners c"
    "emitted ''hitMaxRetries'' (connect_now c) = emitted ''hitMaxRetries'' c"
    "cleanups (connect_now c) = cleanups c"
    "(socket (connect_now c) \<noteq> None \<and> pending_login (connect_now c) = pending_login c)
     \<or> (socket (connect_now c) = socket c \<and> pending_login (connect_now c) = Suc (pending_login c))"
    by (simp_all add: connect_now_def Let_def f initiateSocket_def emit_def emitted_def
        cleanups_def)
qed

lemma reconnect_emits_hit:
  "emitted ''hitMaxRetries'' (reconnect initial s) =
     emitted ''hitMaxRetries'' s
       + (if \<not> initial \<and> \<not> isConnecting s \<and> socket s = None
             \<and> Some (priv_retries s) = maxRetries (options s) then 1 else 0)"
proof (cases "isConnecting s \<or> socket s \<noteq> None")
  case True
  then show ?thesis
    by (auto simp add: reconnect_guarded socket_close_def emitted_def)
next
  case False
  then have "\<not> isConnecting s" "socket s = None" by simp_all
  then show ?thesis
    by (simp add: reconnect_cases connect_now_fields)
       (simp add: cleanupListeners_def emit_def emitted_def)
qed

lemma no_transport_event:
  "socket c = None \<Longrightarrow> pending_login c = 0 \<Longrightarrow> from_transport e \<Longrightarrow> fire e c = None"
  by (cases e) (simp_all add: onWSClose_def)
lemma reconnect_keeps:
  "options (reconnect initial c) = options c"
  "priv_retries (reconnect initial c) = priv_retries c"
  by (simp_all add: reconnect_def socket_close_def cleanupListeners_def emit_def
      initiateSocket_def fetch_def Let_def split: sum.splits)

lemma login_settled_counts:
  "options (login_settled r c) = options c"
  "priv_retries (login_settled r c) = priv_retries c"
  "emitted ''hitMaxRetries'' (login_settled r c) = emitted ''hitMaxRetries'' c"
  by (simp_all add: login_settled_def login_then_def login_catch_def emit_def initiateSocket_def
      emitted_def Let_def split: sum.splits)

lemma send_counts:
  "options (snd (send p d c)) = options c"
  "priv_retries (snd (send p d c)) = priv_retries c"
  "emitted ''hitMaxRetries'' (snd (send p d c)) = emitted ''hitMaxRetries'' c"
  by (simp_all add: send_def Let_def emitted_def split: option.splits)

lemma fetch_counts:
  "options (snd (fetch p d c)) = options c"
  "priv_retries (snd (fetch p d c)) = priv_retries c"
  "emitted ''hitMaxRetries'' (snd (fetch p d c)) = emitted ''hitMaxRetries'' c"
  by (simp_all add: fetch_def emitted_def split: sum.splits)

lemma reconnect_below:
  "maxRetries (options s) = Some N \<Longrightarrow> priv_retries s < N \<Longrightarrow>
     options (reconnect initial s) = options s
     \<and> priv_retries (reconnect initial s) = priv_retries s
     \<and> emitted ''hitMaxRetries'' (reconnect initial s) = emitted ''hitMaxRetries'' s"
  by (simp add: reconnect_emits_hit reconnect_keeps)

text \<open>While the counter stays below \<open>N\<close>, no event emits \<^verbatim>\<open>hitMaxRetries\<close>.\<close>

lemma below_max_fire:
  assumes "maxRetries (options c) = Some N" and "fire e c = Some c'"
    and "priv_retries c + int (increments_of e) < N"
  shows "options c' = options c
     \<and> priv_retries c' = priv_retries c + int (increments_of e)
     \<and> emitted ''hitMaxRetries'' c' = emitted ''hitMaxRetries'' c"
proof (cases e)
  case WSOpen
  with assms show ?thesis
    by (auto simp add: onWSOpen_def emit_def emitted_def split: if_splits)
next
  case (WSMessage n d parsed)
  with assms show ?thesis
    by (auto simp add: onWSMessage_keeps split: if_splits)
next
  case (WSError err)
  show ?thesis
  proof (cases "err = JNull \<or> err = JUndefined")
    case True
    with WSError assms show ?thesis
      by (auto simp add: onWSError_def split: if_splits)
  next
    case False
    let ?c0 = "emit ''error'' (Arg err) (c\<lparr>priv_retries := priv_retries c + 1\<rparr>)"
    have c': "c' = reconnect False ?c0"
      using False WSError assms(2) by (auto simp add: onWSError_def split: if_splits)
    have 0: "options ?c0 = options c" "priv_retries ?c0 = priv_retries c + 1"
      "emitted ''hitMaxRetries'' ?c0 = emitted ''hitMaxRetries'' c"
      by (simp_all add: emit_def emitted_def)
    from 0 assms(1,3) False WSError
    have "maxRetries (options ?c0) = Some N" "priv_retries ?c0 < N"
      by simp_all
    from reconnect_below [OF this] 0 False WSError show ?thesis
      unfolding c' by simp
  qed
next
  case (WSClose evt)
  from WSClose assms(2) obtain w where w: "socket c = Some w"
    by (auto simp add: onWSClose_def split: option.splits)
  let ?c0 = "emit ''disconnect'' (Arg evt)
               (c\<lparr>socket := None, connected := False, isConnecting := False,
                  priv_retries := priv_retries c + 1\<rparr>)"
  have c': "c' = reconnect False ?c0"
    using WSClose assms(2) w by (simp add: onWSClose_def)
  have 0: "options ?c0 = options c" "priv_retries ?c0 = priv_retries c + 1"
    "emitted ''hitMaxRetries'' ?c0 = emitted ''hitMaxRetries'' c"
    by (simp_all add: emit_def emitted_def)
  from 0 assms(1,3) WSClose
  have "maxRetries (options ?c0) = Some N" "priv_retries ?c0 < N"
    by simp_all
  from reconnect_below [OF this] 0 WSClose show ?thesis
    unfolding c' by simp
next
  case (LoginSettled r)
  with assms show ?thesis
    by (auto simp add: login_settled_counts split: if_splits)
next
  case (CallReconnect b)
  with assms reconnect_below [of c N b] show ?thesis
    by auto
next
  case CallDisconnect
  with assms reconnect_below [of "c\<lparr>shouldDisconnect := True\<rparr>" N False] show ?thesis
    by (auto simp add: disconnect_def emitted_def)
next
  case (CallSend d parsed)
  with assms show ?thesis
    by (auto simp add: send_counts)
next
  case (CallFetch p opts)
  with assms show ?thesis
    by (auto simp add: fetch_counts)
next
  case (CallSetAuthenticated tok k)
  with assms show ?thesis
    by (auto simp add: setAuthenticated_def emit_def emitted_def)
next
  case (CallOn name l)
  with assms show ?thesis
    by (auto simp add: emitted_def)
qed

lemma below_max_run:
  "maxRetries (options c) = Some N \<Longrightarrow> run es c = Some c' \<Longrightarrow>
   priv_retries c + int (increments es) < N \<Longrightarrow>
     options c' = options c
     \<and> priv_retries c' = priv_retries c + int (increments es)
     \<and> emitted ''hitMaxRetries'' c' = emitted ''hitMaxRetries'' c"
proof (induction es arbitrary: c)
  case Nil
  then show ?case by (simp add: increments_def)
next
  case (Cons e es)
  then obtain c1 where 1: "fire e c = Some c1" and 2: "run es c1 = Some c'"
    by (auto split: option.splits)
  from Cons.prems(3) have b: "priv_retries c + int (increments_of e) < N"
    by (simp add: increments_def)
  from below_max_fire [OF Cons.prems(1) 1 b]
  have 3: "options c1 = options c" "priv_retries c1 = priv_retries c + int (increments_of e)"
    "emitted ''hitMaxRetries'' c1 = emitted ''hitMaxRetries'' c"
    by simp_all
  from Cons.prems(1,3) 3 have "maxRetries (options c1) = Some N"
    "priv_retries c1 + int (increments es) < N"
    by (simp_all add: increments_def)
  from Cons.IH [OF this(1) 2 this(2)] 3 show ?case
    by (simp add: increments_def)
qed

text \<open>The invariant on logins holds throughout, whatever happens.\<close>

lemma login_inv_reconnect:
  assumes "login_inv c"
  shows "login_inv (reconnect initial c)"
proof (cases "isConnecting c \<or> socket c \<noteq> None")
  case True
  with assms show ?thesis
    by (auto simp add: reconnect_guarded socket_close_def login_inv_def)
next
  case False
  then have r: "\<not> isConnecting c" "socket c = None" by simp_all
  with assms have p: "pending_login c = 0"
    by (auto simp add: login_inv_def)
  from connect_now_fields(3,7) [of c] r p have "login_inv (connect_now c)"
    by (auto simp add: login_inv_def)
  moreover have "login_inv (cleanupListeners c)"
    "login_inv (cleanupListeners (emit ''hitMaxRetries'' NoArg c))"
    using assms by (simp_all add: login_inv_def cleanupListeners_def emit_def)
  ultimately show ?thesis
    by (simp add: reconnect_cases [OF r])
qed

lemma login_inv_fire:
  assumes "login_inv c" and "fire e c = Some c'"
  shows "login_inv c'"
proof (cases e)
  case WSOpen
  with assms show ?thesis
    by (auto simp add: login_inv_def onWSOpen_def emit_def split: if_splits)
next
  case (WSMessage n d parsed)
  with assms show ?thesis
    by (auto simp add: login_inv_def onWSMessage_keeps split: if_splits)
next
  case (WSError err)
  have "login_inv (emit ''error'' (Arg err) (c\<lparr>priv_retries := priv_retries c + 1\<rparr>))"
    using assms(1) by (simp add: login_inv_def emit_def)
  then have "login_inv (reconnect False
      (emit ''error'' (Arg err) (c\<lparr>priv_retries := priv_retries c + 1\<rparr>)))"
    by (rule login_inv_reconnect)
  with WSError assms show ?thesis
    by (auto simp add: onWSError_def split: if_splits)
next
  case (WSClose evt)
  from WSClose assms(2) obtain w where w: "socket c = Some w"
    by (auto simp add: onWSClose_def split: option.splits)
  with assms(1) have "pending_login c = 0"
    by (auto simp add: login_inv_def)
  then have "login_inv (emit ''disconnect'' (Arg evt)
               (c\<lparr>socket := None, connected := False, isConnecting := False,
                  priv_retries := priv_retries c + 1\<rparr>))"
    by (simp add: login_inv_def emit_def)
  then have "login_inv (reconnect False (emit ''disconnect'' (Arg evt)
               (c\<lparr>socket := None, connected := False, isConnecting := False,
                  priv_retries := priv_retries c + 1\<rparr>)))"
    by (rule login_inv_reconnect)
  with WSClose assms(2) w show ?thesis
    by (simp add: onWSClose_def)
next
  case (LoginSettled r)
  with assms show ?thesis
    by (auto simp add: login_inv_def login_settled_def login_then_def login_catch_def
        initiateSocket_def emit_def Let_def split: if_splits sum.splits)
next
  case (CallReconnect b)
  with assms login_inv_reconnect show ?thesis
    by auto
next
  case CallDisconnect
  have "login_inv (c\<lparr>shouldDisconnect := True\<rparr>)"
    using assms(1) by (simp add: login_inv_def)
  then have "login_inv (disconnect c)"
    unfolding disconnect_def by (rule login_inv_reconnect)
  with CallDisconnect assms show ?thesis
    by auto
next
  case (CallSend d parsed)
  with assms show ?thesis
    by (auto simp add: login_inv_def send_keeps)
next
  case (CallFetch p opts)
  with assms show ?thesis
    by (auto simp add: login_inv_def fetch_keeps)
next
  case (CallSetAuthenticated tok k)
  with assms show ?thesis
    by (auto simp add: login_inv_def setAuthenticated_def emit_def)
next
  case (CallOn name l)
  with assms show ?thesis
    by (auto simp add: login_inv_def)
qed

lemma login_inv_run:
  "login_inv c \<Longrightarrow> run es c = Some c' \<Longrightarrow> login_inv c'"
proof (induction es arbitrary: c)
  case Nil
  then show ?case by simp
next
  case (Cons e es)
  then obtain c1 where "fire e c = Some c1" and "run es c1 = Some c'"
    by (auto split: option.splits)
  with Cons.IH Cons.prems(1) login_inv_fire show ?case
    by blast
qed

lemma constructor_start:
  "login_inv (constructor opts) \<and> options (constructor opts) = opts
   \<and> priv_retries (constructor opts) = 0 \<and> emitted ''hitMaxRetries'' (constructor opts) = 0"
proof -
  have "login_inv (new_connection opts)"
    by (simp add: login_inv_def new_connection_def)
  then have "login_inv (constructor opts)"
    unfolding constructor_def by (rule login_inv_reconnect)
  then show ?thesis
    by (simp add: constructor_def reconnect_keeps reconnect_emits_hit)
       (simp add: new_connection_def emitted_def)
qed

text \<open>The closure that brings the counter to \<open>N\<close>.\<close>

lemma last_close:
  assumes "maxRetries (options c) = Some N" and "login_inv c"
    and "priv_retries c = N - 1" and "fire (WSClose evt) c = Some c'"
  shows "trace c' = trace c @ [Emit ''disconnect'' (Arg evt), Emit ''hitMaxRetries'' NoArg,
             RemoveAllListeners]
     \<and> listeners c' = [] \<and> at_rest c' \<and> priv_retries c' = N"
proof -
  from assms(4) obtain w where w: "socket c = Some w"
    by (auto simp add: onWSClose_def split: option.splits)
  with assms(2) have p: "pending_login c = 0"
    by (auto simp add: login_inv_def)
  have "c' = reconnect False (emit ''disconnect'' (Arg evt)
               (c\<lparr>socket := None, connected := False, isConnecting := False,
                  priv_retries := priv_retries c + 1\<rparr>))"
    using assms(4) w by (simp add: onWSClose_def)
  then show ?thesis
    using assms(1,3) p
    by (simp add: reconnect_cases emit_def cleanupListeners_def at_rest_def)
qed

text \<open>At rest, and without a call of \<^verbatim>\<open>reconnect\<close> or \<^verbatim>\<open>disconnect\<close>, only the other
  calls can happen, and they change nothing of the connection.\<close>

lemma at_rest_fire:
  assumes "at_rest c" and "\<not> is_reconnect_call e" and "fire e c = Some c'"
  shows "at_rest c' \<and> is_call e
     \<and> priv_retries c' = priv_retries c
     \<and> emitted ''hitMaxRetries'' c' = emitted ''hitMaxRetries'' c
     \<and> sockets_opened c' = sockets_opened c \<and> cleanups c' = cleanups c"
proof (cases e)
  case (CallSend d parsed)
  with assms show ?thesis
    by (auto simp add: at_rest_def send_def)
next
  case (CallFetch p opts)
  with assms show ?thesis
    by (auto simp add: at_rest_def fetch_def emitted_def sockets_opened_def cleanups_def
        split: sum.splits)
next
  case (CallSetAuthenticated tok k)
  with assms show ?thesis
    by (auto simp add: at_rest_def setAuthenticated_def emit_def emitted_def sockets_opened_def
        cleanups_def)
next
  case (CallOn name l)
  with assms show ?thesis
    by (auto simp add: at_rest_def emitted_def sockets_opened_def cleanups_def)
qed (use assms in \<open>auto simp add: at_rest_def onWSClose_def\<close>)

lemma at_rest_run:
  "at_rest c \<Longrightarrow> \<forall>e \<in> set es. \<not> is_reconnect_call e \<Longrightarrow> run es c = Some c' \<Longrightarrow>
     at_rest c' \<and> (\<forall>e \<in> set es. is_call e)
     \<and> priv_retries c' = priv_retries c
     \<and> emitted ''hitMaxRetries'' c' = emitted ''hitMaxRetries'' c
     \<and> sockets_opened c' = sockets_opened c \<and> cleanups c' = cleanups c"
proof (induction es arbitrary: c)
  case Nil
  then show ?case by simp
next
  case (Cons e es)
  then obtain c1 where 1: "fire e c = Some c1" and 2: "run es c1 = Some c'"
    by (auto split: option.splits)
  from Cons.prems(2) have n: "\<not> is_reconnect_call e" "\<forall>e \<in> set es. \<not> is_reconnect_call e"
    by simp_all
  from at_rest_fire [OF Cons.prems(1) n(1) 1] Cons.IH [OF _ n(2) 2] show ?case
    by auto
qed

text \<open>Claim C1, amended. Let \<^verbatim>\<open>maxRetries\<close> be \<open>N\<close>, at least 1. Take any history
  since the construction (events of the socket, errors among them, login settlings and
  calls of the interface, \<^verbatim>\<open>reconnect\<close> and \<^verbatim>\<open>disconnect\<close> included) in which the
  closures and errors number \<open>N - 1\<close>: the retry counter is then \<open>N - 1\<close> and
  \<^verbatim>\<open>hitMaxRetries\<close> has not been emitted. If the next increment is a closure, its handler
  emits \<^verbatim>\<open>disconnect\<close>, then \<^verbatim>\<open>hitMaxRetries\<close>, then releases all listeners. From
  there on, in every history without a call of \<^verbatim>\<open>reconnect\<close> or \<^verbatim>\<open>disconnect\<close>, only
  calls of \<^verbatim>\<open>send\<close>, \<^verbatim>\<open>fetch\<close>, \<^verbatim>\<open>setAuthenticated\<close> and listener registrations can
  happen: \<^verbatim>\<open>hitMaxRetries\<close> stays emitted exactly once, the counter stays \<open>N\<close>, there
  is no socket, no attempt under way and no login in flight, no socket is opened, no event
  of a transport can follow, and with it no further reconnect attempt. In every state
  \<^verbatim>\<open>reconnect\<close> emits \<^verbatim>\<open>hitMaxRetries\<close> exactly when it is called without the initial
  flag, is past its two guards (not connecting, no socket) and finds the counter equal to
  \<^verbatim>\<open>maxRetries\<close>; the handlers that increment the counter compare nothing.\<close>

theorem hitMaxRetries_after_closures:
  assumes "maxRetries opts = Some N" and "1 \<le> N"
    and "run es1 (constructor opts) = Some c1" and "int (increments es1) = N - 1"
    and "fire (WSClose evt) c1 = Some c2"
    and "\<forall>e \<in> set es2. \<not> is_reconnect_call e" and "run es2 c2 = Some c3"
  shows "priv_retries c1 = N - 1 \<and> emitted ''hitMaxRetries'' c1 = 0
     \<and> trace c2 = trace c1 @ [Emit ''disconnect'' (Arg evt), Emit ''hitMaxRetries'' NoArg,
                               RemoveAllListeners]
     \<and> listeners c2 = []
     \<and> priv_retries c3 = N \<and> emitted ''hitMaxRetries'' c3 = 1
     \<and> socket c3 = None \<and> \<not> isConnecting c3 \<and> pending_login c3 = 0
     \<and> sockets_opened c3 = sockets_opened c1 \<and> cleanups c3 = Suc (cleanups c1)
     \<and> (\<forall>e \<in> set es2. is_call e)
     \<and> (\<forall>e. from_transport e \<longrightarrow> fire e c3 = None)
     \<and> (\<forall>s initial.
          emitted ''hitMaxRetries'' (reconnect initial s) =
            emitted ''hitMaxRetries'' s
              + (if \<not> initial \<and> \<not> isConnecting s \<and> socket s = None
                    \<and> Some (priv_retries s) = maxRetries (options s) then 1 else 0))"
proof -
  from constructor_start [of opts]
  have s: "login_inv (constructor opts)" "options (constructor opts) = opts"
    "priv_retries (constructor opts) = 0" "emitted ''hitMaxRetries'' (constructor opts) = 0"
    by simp_all
  have m: "maxRetries (options (constructor opts)) = Some N"
    using s(2) assms(1) by simp
  have b: "priv_retries (constructor opts) + int (increments es1) < N"
    using s(3) assms(4) by simp
  from below_max_run [OF m assms(3) b] s assms(1,4)
  have 1: "maxRetries (options c1) = Some N" "priv_retries c1 = N - 1"
    "emitted ''hitMaxRetries'' c1 = 0"
    by simp_all
  from login_inv_run [OF s(1) assms(3)] have i: "login_inv c1" .
  from last_close [OF 1(1) i 1(2) assms(5)]
  have 2: "trace c2 = trace c1 @ [Emit ''disconnect'' (Arg evt), Emit ''hitMaxRetries'' NoArg,
             RemoveAllListeners]" "listeners c2 = []" "at_rest c2" "priv_retries c2 = N"
    by simp_all
  from 2(1) 1(3) have 3: "emitted ''hitMaxRetries'' c2 = 1"
    "sockets_opened c2 = sockets_opened c1" "cleanups c2 = Suc (cleanups c1)"
    by (simp_all add: emitted_def sockets_opened_def cleanups_def)
  from at_rest_run [OF 2(3) assms(6,7)] 2(4) 3
  have 4: "at_rest c3" "\<forall>e \<in> set es2. is_call e" "priv_retries c3 = N"
    "emitted ''hitMaxRetries'' c3 = 1" "sockets_opened c3 = sockets_opened c1"
    "cleanups c3 = Suc (cleanups c1)"
    by simp_all
  from 4(1) have 5: "socket c3 = None" "\<not> isConnecting c3" "pending_login c3 = 0"
    by (simp_all add: at_rest_def)
  then have 6: "\<forall>e. from_transport e \<longrightarrow> fire e c3 = None"
    by (simp add: no_transport_event)
  from 1 2 4 5 6 reconnect_emits_hit show ?thesis
    by blast
qed

lemma retry_example_run:
  "\<exists>c1 c2 c3.
     run [WSOpen, WSError some_event] (constructor (example_options\<lparr>maxRetries := Some 2\<rparr>))
       = Some c1
     \<and> fire (WSClose some_event) c1 = Some c2
     \<and> run [CallSend (JObj []) None, CallSetAuthenticated (JStr ''abc'') None] c2 = Some c3
     \<and> run [WSOpen, WSError some_event, WSClose some_event,
             CallSend (JObj []) None, CallSetAuthenticated (JStr ''abc'') None]
          (constructor (example_options\<lparr>maxRetries := Some 2\<rparr>)) = Some c3
     \<and> sockets_opened c1 = 1 \<and> cleanups c1 = 0"
  by (simp add: constructor_def reconnect_def new_connection_def example_options_def
      initiateSocket_def emit_def onWSOpen_def onWSError_def onWSClose_def cleanupListeners_def
      socket_close_def some_event_def send_def setAuthenticated_def sockets_opened_def
      cleanups_def)

text \<open>With \<^verbatim>\<open>maxRetries\<close> 2: the socket opens, an error takes the first increment, the
  closure takes the second; then \<^verbatim>\<open>send\<close> and \<^verbatim>\<open>setAuthenticated\<close> are called.\<close>

theorem hitMaxRetries_after_closures_witness:
  "map_option (\<lambda>c. (priv_retries c, emitted ''hitMaxRetries'' c, socket c, isConnecting c,
                     sockets_opened c, cleanups c))
     (run [WSOpen, WSError some_event, WSClose some_event,
           CallSend (JObj []) None, CallSetAuthenticated (JStr ''abc'') None]
        (constructor (example_options\<lparr>maxRetries := Some 2\<rparr>)))
   = Some (2, 1, None, False, 1, 1)"
proof -
  let ?opts = "example_options\<lparr>maxRetries := Some 2\<rparr>"
  let ?es1 = "[WSOpen, WSError some_event]"
  let ?es2 = "[CallSend (JObj []) None, CallSetAuthenticated (JStr ''abc'') None]"
  from retry_example_run obtain c1 c2 c3
    where r1: "run ?es1 (constructor ?opts) = Some c1"
      and f: "fire (WSClose some_event) c1 = Some c2"
      and r2: "run ?es2 c2 = Some c3"
      and r: "run [WSOpen, WSError some_event, WSClose some_event,
             CallSend (JObj []) None, CallSetAuthenticated (JStr ''abc'') None]
          (constructor ?opts) = Some c3"
      and k: "sockets_opened c1 = 1" "cleanups c1 = 0"
    by blast
  have m: "maxRetries ?opts = Some 2" "(1::int) \<le> 2"
    by simp_all
  have i: "int (increments ?es1) = 2 - 1"
    by (simp add: increments_def some_event_def)
  have q: "\<forall>e \<in> set ?es2. \<not> is_reconnect_call e"
    by simp
  from hitMaxRetries_after_closures [OF m r1 i f q r2] k
  have "priv_retries c3 = 2 \<and> emitted ''hitMaxRetries'' c3 = 1 \<and> socket c3 = None
      \<and> \<not> isConnecting c3 \<and> sockets_opened c3 = 1 \<and> cleanups c3 = 1"
    by simp
  then show ?thesis
    unfolding r by simp
qed

text \<open>The claim as stated fails. With \<^verbatim>\<open>maxRetries\<close> 1, after one error event the
  \<^verbatim>\<open>reconnect()\<close> of the error handler returns at its first guard and emits nothing;
  the closure that follows brings the counter to 2 and a second socket is opened, with no
  \<^verbatim>\<open>hitMaxRetries\<close> and no listener released. With \<^verbatim>\<open>maxRetries\<close> 0 the first closure
  brings the counter to 1 and a second socket is opened likewise. And with
  \<^verbatim>\<open>maxRetries\<close> 1, after the closure that emits \<^verbatim>\<open>hitMaxRetries\<close>, a call of
  \<^verbatim>\<open>disconnect()\<close> emits it a second time, and a call of \<^verbatim>\<open>reconnect(true)\<close> opens a
  second socket.\<close>

theorem retry_limit_counterexample:
  "maxRetries example_options = Some 1
   \<and> map_option (\<lambda>c. (priv_retries c, emitted ''hitMaxRetries'' c, sockets_opened c))
       (run [WSError some_event] (constructor example_options))
     = Some (1, 0, 1)
   \<and> map_option (\<lambda>c. (priv_retries c, emitted ''hitMaxRetries'' c, sockets_opened c,
                       isConnecting c, cleanups c))
       (run [WSError some_event, WSClose some_event] (constructor example_options))
     = Some (2, 0, 2, True, 0)
   \<and> map_option (\<lambda>c. (priv_retries c, emitted ''hitMaxRetries'' c, sockets_opened c,
                       isConnecting c, cleanups c))
       (run [WSClose some_event] (constructor (example_options\<lparr>maxRetries := Some 0\<rparr>)))
     = Some (1, 0, 2, True, 0)
   \<and> map_option (\<lambda>c. (priv_retries c, emitted ''hitMaxRetries'' c, sockets_opened c))
       (run [WSClose some_event, CallDisconnect] (constructor example_options))
     = Some (1, 2, 1)
   \<and> map_option (\<lambda>c. (priv_retries c, emitted ''hitMaxRetries'' c, sockets_opened c))
       (run [WSClose some_event, CallReconnect True] (constructor example_options))
     = Some (1, 1, 2)"
  by (simp add: constructor_def reconnect_def disconnect_def new_connection_def
      example_options_def initiateSocket_def emit_def onWSError_def onWSClose_def
      cleanupListeners_def some_event_def emitted_def sockets_opened_def cleanups_def)

end
